theory Spec2Isabelle
  imports Main "HOL-Library.AList"
begin

section \<open>Strings and the path module\<close>

text \<open>
  Source: \<^verbatim>\<open>src/deploy/functions/isolate/lockfile.ts\<close>. JavaScript strings are modelled
  as \<^typ>\<open>string\<close>; the code only compares them, tests prefixes and replaces the ASCII
  characters \<^verbatim>\<open>@\<close> and \<^verbatim>\<open>/\<close>.
\<close>

definition startsWith :: "string \<Rightarrow> string \<Rightarrow> bool" where
  \<comment> \<open>\<^verbatim>\<open>s.startsWith(p)\<close>\<close>
  "startsWith s p = (take (length p) s = p)"

text \<open>
  \<^verbatim>\<open>import * as path from "path"\<close>: Node's path module is not part of the repository.
  The functions below take the two operations they call as a parameter, so every
  theorem holds for any implementation of \<^verbatim>\<open>path.join\<close> and \<^verbatim>\<open>path.relative\<close>.
\<close>

record path_module =
  path_join :: "string \<Rightarrow> string \<Rightarrow> string"
  path_relative :: "string \<Rightarrow> string \<Rightarrow> string"

subsection \<open>Node's POSIX path functions, for the concrete runs\<close>

text \<open>
  A model of \<^verbatim>\<open>path.posix\<close> on segment lists, used only to evaluate the code at
  concrete inputs. \<open>cwd\<close> stands for \<^verbatim>\<open>process.cwd()\<close>, an absolute path.
\<close>

fun split_at :: "char \<Rightarrow> string \<Rightarrow> string \<Rightarrow> string list" where
  \<comment> \<open>\<^verbatim>\<open>s.split(c)\<close>, with the segment read so far\<close>
  "split_at c cur [] = [cur]"
| "split_at c cur (x # xs) =
     (if x = c then cur # split_at c [] xs else split_at c (cur @ [x]) xs)"

definition intercalate :: "string \<Rightarrow> string list \<Rightarrow> string" where
  \<comment> \<open>\<^verbatim>\<open>segs.join(sep)\<close>\<close>
  "intercalate sep segs =
     (case segs of [] \<Rightarrow> [] | s # r \<Rightarrow> fold (\<lambda>t acc. acc @ sep @ t) r s)"

definition normalizeString :: "string \<Rightarrow> bool \<Rightarrow> string list" where
  \<comment> \<open>the segments that \<^verbatim>\<open>normalizeString(path, allowAboveRoot)\<close> keeps\<close>
  "normalizeString p allowAboveRoot =
     fold (\<lambda>seg res.
        if seg = [] \<or> seg = ''.'' then res
        else if seg = ''..'' then
          (if res \<noteq> [] \<and> last res \<noteq> ''..'' then butlast res
           else if allowAboveRoot then res @ [''..''] else res)
        else res @ [seg])
      (split_at CHR ''/'' [] p) []"

definition posix_normalize :: "string \<Rightarrow> string" where
  "posix_normalize p =
     (if p = [] then ''.''
      else
        let isAbsolute = (hd p = CHR ''/'');
            trailingSeparator = (last p = CHR ''/'');
            q = intercalate ''/'' (normalizeString p (\<not> isAbsolute))
        in if q = [] then (if isAbsolute then ''/'' else if trailingSeparator then ''./'' else ''.'')
           else (if isAbsolute then ''/'' else []) @ q @ (if trailingSeparator then ''/'' else []))"

definition posix_join :: "string \<Rightarrow> string \<Rightarrow> string" where
  "posix_join a b =
     (case filter (\<lambda>arg. arg \<noteq> []) [a, b] of
        [] \<Rightarrow> ''.''
      | args \<Rightarrow> posix_normalize (intercalate ''/'' args))"

definition posix_resolve :: "string \<Rightarrow> string \<Rightarrow> string list" where
  \<comment> \<open>the segments of \<^verbatim>\<open>path.resolve(p)\<close>, which is absolute\<close>
  "posix_resolve cwd p =
     (if p \<noteq> [] \<and> hd p = CHR ''/'' then normalizeString p False
      else normalizeString (cwd @ ''/'' @ p) False)"

fun strip_common :: "string list \<Rightarrow> string list \<Rightarrow> string list \<times> string list" where
  "strip_common (f # fs) (t # ts) =
     (if f = t then strip_common fs ts else (f # fs, t # ts))"
| "strip_common fs ts = (fs, ts)"

definition posix_relative :: "string \<Rightarrow> string \<Rightarrow> string \<Rightarrow> string" where
  "posix_relative cwd from to =
     (if from = to then []
      else
        let (fs, ts) = strip_common (posix_resolve cwd from) (posix_resolve cwd to)
        in intercalate ''/'' (replicate (length fs) ''..'' @ ts))"

definition posix :: "string \<Rightarrow> path_module" where
  "posix cwd = \<lparr> path_join = posix_join, path_relative = posix_relative cwd \<rparr>"

section \<open>The lockfile's data\<close>

text \<open>
  An object is the list of its own enumerable properties in the order in which
  \<^verbatim>\<open>Object.entries\<close> and \<^verbatim>\<open>for ... in\<close> enumerate them: the keys that are array indices
  first, in ascending numeric order, then the other keys in the order of their creation.
  An object has no key twice. An array index is the decimal numeral, without a leading
  zero, of an integer from \<open>0\<close> to \<open>2\<^sup>3\<^sup>2 - 2\<close>.
\<close>

type_synonym 'v obj = "(string \<times> 'v) list"

definition decimal :: "string \<Rightarrow> nat" where
  "decimal k = foldl (\<lambda>n c. 10 * n + length (takeWhile (\<lambda>d. d \<noteq> c) ''0123456789'')) 0 k"

definition arrayIndex :: "string \<Rightarrow> nat option" where
  "arrayIndex k =
     (if k = ''0'' then Some 0
      else if k \<noteq> [] \<and> hd k \<noteq> CHR ''0'' \<and> list_all (\<lambda>c. c \<in> set ''0123456789'') k \<and>
              decimal k < 4294967295
      then Some (decimal k)
      else None)"

definition keyBefore :: "string \<Rightarrow> string \<Rightarrow> bool" where
  \<comment> \<open>a key \<open>a\<close> of an object stays in front of a new key \<open>b\<close>\<close>
  "keyBefore a b =
     (case arrayIndex b of
        None \<Rightarrow> True
      | Some n \<Rightarrow> (case arrayIndex a of None \<Rightarrow> False | Some m \<Rightarrow> m < n))"

fun place :: "string \<Rightarrow> 'v \<Rightarrow> 'v obj \<Rightarrow> 'v obj" where
  \<comment> \<open>a new property, at its place in the enumeration order\<close>
  "place k v [] = [(k, v)]"
| "place k v (e # al) = (if keyBefore (fst e) k then e # place k v al else (k, v) # e # al)"

text \<open>
  An assignment \<^verbatim>\<open>o[k] = v\<close> to an object that a literal or a spread has made replaces
  the value of a property the object has, in its place. When \<open>k\<close> is not a key of the
  object, the assignment creates the property, except for the key \<^verbatim>\<open>__proto__\<close>: that
  one is an accessor of \<^verbatim>\<open>Object.prototype\<close>, whose setter makes \<open>v\<close> the prototype of
  \<open>o\<close> when \<open>v\<close> is an object or \<^verbatim>\<open>null\<close> and does nothing otherwise. In both cases \<open>o\<close>
  gets no property. The prototype is not part of the lists: \<^verbatim>\<open>lockfile.ts\<close> reads no
  property of an object it has assigned to but \<^verbatim>\<open>pruned.importers\<close>, which is the
  object's own.
\<close>

definition assign :: "string \<Rightarrow> 'v \<Rightarrow> 'v obj \<Rightarrow> 'v obj" where
  "assign k v al =
     (if k \<in> fst ` set al then AList.update k v al
      else if k = ''__proto__'' then al
      else place k v al)"

definition isObject :: "'v obj \<Rightarrow> bool" where
  \<comment> \<open>the list is the entries of an object: no key twice, in enumeration order\<close>
  "isObject al = (distinct (map fst al) \<and> sorted_wrt keyBefore (map fst al))"

record DependencyEntry =
  specifier :: string
  version :: string

text \<open>
  \<^verbatim>\<open>ImporterData\<close> and \<^verbatim>\<open>PnpmLockfile\<close> have an index signature
  \<^verbatim>\<open>[key: string]: unknown\<close>: the fields the interface names are fields of the record,
  every other key is an entry of \<open>extras\<close>, of an arbitrary type \<open>'u\<close>. An optional field
  is an \<^typ>\<open>'a option\<close>; a field that is missing and a field that holds
  \<^verbatim>\<open>undefined\<close> read the same and are both \<^const>\<open>None\<close>.
\<close>

record 'u ImporterData =
  dependencies :: "DependencyEntry obj option"
  devDependencies :: "DependencyEntry obj option"
  optionalDependencies :: "DependencyEntry obj option"
  importer_extras :: "'u obj"

datatype number = Finite int int | PosInfinity | NegInfinity | NaN
  \<comment> \<open>a JavaScript number: \<open>Finite m e\<close> is \<open>m * 2 ^ e\<close>; the code only copies it\<close>

datatype version_token = VersionString string | VersionNumber number
  \<comment> \<open>\<^verbatim>\<open>lockfileVersion: string | number\<close>\<close>

record 'u PnpmLockfile =
  lockfileVersion :: version_token
  importers :: "'u ImporterData obj option"
  packages :: "'u obj option"
  lockfile_extras :: "'u obj"

record RewriteContext =
  outputDir :: string
  workspacesDir :: string

text \<open>
  Modelled from the spec: the type \<^verbatim>\<open>WorkspaceRegistry\<close> is imported from
  \<^verbatim>\<open>./types\<close>, which is not among the sources. The code calls
  \<^verbatim>\<open>registry.get(depName)\<close> and reads \<^verbatim>\<open>rootRelativeDir\<close> of the result; the spec gives
  \<^verbatim>\<open>lookup(name) -> { rootRelativeDir } | absent\<close>.
\<close>

record WorkspacePackage =
  rootRelativeDir :: string

type_synonym WorkspaceRegistry = "string \<rightharpoonup> WorkspacePackage"

section \<open>The functions of lockfile.ts\<close>

definition getRelativePath :: "path_module \<Rightarrow> string \<Rightarrow> string \<Rightarrow> string" where
  "getRelativePath P from to =
     (let relativePath = path_relative P from to
      in if \<not> startsWith relativePath ''.'' then ''./'' @ relativePath
         else relativePath)"

definition safeName :: "string \<Rightarrow> string" where
  \<comment> \<open>\<^verbatim>\<open>depName.replace(/^@/, "").replace(/\//g, "-")\<close>\<close>
  "safeName depName =
     map (\<lambda>c. if c = CHR ''/'' then CHR ''-'' else c)
       (case depName of [] \<Rightarrow> [] | c # r \<Rightarrow> if c = CHR ''@'' then r else c # r)"

definition rewriteEntry ::
  "path_module \<Rightarrow> string list \<Rightarrow> string \<Rightarrow> string \<Rightarrow> string \<Rightarrow> DependencyEntry \<Rightarrow> DependencyEntry"
where
  \<comment> \<open>the body of the loop of \<^verbatim>\<open>rewriteImporterDependencies\<close>: the value stored under \<open>depName\<close>\<close>
  "rewriteEntry P internalDeps importerOutputDir wsDir depName depInfo =
     (if depName \<in> set internalDeps \<and> startsWith (specifier depInfo) ''workspace:'' then
        let depDir = path_join P wsDir (safeName depName);
            relativePath = getRelativePath P importerOutputDir depDir
        in \<lparr> specifier = ''file:'' @ relativePath, version = ''link:'' @ relativePath \<rparr>
      else depInfo)"

definition rewriteImporterDependencies ::
  "path_module \<Rightarrow> DependencyEntry obj option \<Rightarrow> string list \<Rightarrow> string \<Rightarrow> string
    \<Rightarrow> DependencyEntry obj option"
where
  "rewriteImporterDependencies P deps internalDeps importerOutputDir wsDir =
     (case deps of
        None \<Rightarrow> None
      | Some d \<Rightarrow>
          Some (fold (\<lambda>(depName, depInfo) result.
                   assign depName
                     (rewriteEntry P internalDeps importerOutputDir wsDir depName depInfo)
                     result)
                 d []))"

definition rewriteImporter ::
  "path_module \<Rightarrow> 'u ImporterData \<Rightarrow> string list \<Rightarrow> string \<Rightarrow> string \<Rightarrow> 'u ImporterData"
where
  \<comment> \<open>\<^verbatim>\<open>rewrittenImporter\<close>: the copy \<^verbatim>\<open>{ ...importerData }\<close> after its three assignments\<close>
  "rewriteImporter P importerData internalDeps importerOutputDir wsDir =
     importerData
       \<lparr> dependencies :=
           rewriteImporterDependencies P (dependencies importerData) internalDeps
             importerOutputDir wsDir,
         devDependencies :=
           rewriteImporterDependencies P (devDependencies importerData) internalDeps
             importerOutputDir wsDir,
         optionalDependencies :=
           rewriteImporterDependencies P (optionalDependencies importerData) internalDeps
             importerOutputDir wsDir \<rparr>"

text \<open>
  \<^verbatim>\<open>internalDeps: Set<string>\<close> is the list of its elements in insertion order, the
  order of \<^verbatim>\<open>for (const depName of internalDeps)\<close>. \<^verbatim>\<open>relevantDirs\<close> is only asked
  \<^verbatim>\<open>has\<close>, so it is a set; the two \<^verbatim>\<open>Map<string, string>\<close> are only asked \<^verbatim>\<open>get\<close>,
  so they are maps, and \<^verbatim>\<open>set\<close> overwrites.
\<close>

definition relevantDirs :: "string \<Rightarrow> string list \<Rightarrow> WorkspaceRegistry \<Rightarrow> string set" where
  "relevantDirs targetRelativeDir internalDeps registry =
     fold (\<lambda>depName dirs.
             case registry depName of
               Some pkg \<Rightarrow> insert (rootRelativeDir pkg) dirs
             | None \<Rightarrow> dirs)
       internalDeps {targetRelativeDir}"

definition importerPathToOutputDir ::
  "path_module \<Rightarrow> string \<Rightarrow> string list \<Rightarrow> WorkspaceRegistry \<Rightarrow> RewriteContext option
    \<Rightarrow> (string \<rightharpoonup> string)"
where
  "importerPathToOutputDir P targetRelativeDir internalDeps registry rewriteContext =
     (case rewriteContext of
        None \<Rightarrow> Map.empty
      | Some ctx \<Rightarrow>
          fold (\<lambda>depName m.
                  case registry depName of
                    Some pkg \<Rightarrow>
                      m(rootRelativeDir pkg \<mapsto> path_join P (workspacesDir ctx) (safeName depName))
                  | None \<Rightarrow> m)
            internalDeps [targetRelativeDir \<mapsto> outputDir ctx])"

definition importerPathToNewPath ::
  "string \<Rightarrow> string list \<Rightarrow> WorkspaceRegistry \<Rightarrow> RewriteContext option \<Rightarrow> (string \<rightharpoonup> string)"
where
  "importerPathToNewPath targetRelativeDir internalDeps registry rewriteContext =
     (case rewriteContext of
        None \<Rightarrow> Map.empty
      | Some ctx \<Rightarrow>
          fold (\<lambda>depName m.
                  case registry depName of
                    Some pkg \<Rightarrow> m(rootRelativeDir pkg \<mapsto> ''workspaces/'' @ safeName depName)
                  | None \<Rightarrow> m)
            internalDeps [targetRelativeDir \<mapsto> ''.''])"

definition pruneImporter ::
  "path_module \<Rightarrow> string \<Rightarrow> string list \<Rightarrow> RewriteContext option \<Rightarrow> string set
    \<Rightarrow> (string \<rightharpoonup> string) \<Rightarrow> (string \<rightharpoonup> string)
    \<Rightarrow> string \<times> 'u ImporterData \<Rightarrow> 'u ImporterData obj \<Rightarrow> 'u ImporterData obj"
where
  \<comment> \<open>one round of the loop over \<^verbatim>\<open>Object.entries(lockfile.importers)\<close>;
      \<open>acc\<close> is \<^verbatim>\<open>pruned.importers\<close>. A string is truthy when it is not empty.\<close>
  "pruneImporter P targetRelativeDir internalDeps rewriteContext relevant toOutputDir toNewPath
      entry acc =
     (case entry of (importerPath, importerData) \<Rightarrow>
        if importerPath = ''.'' \<and> targetRelativeDir \<noteq> ''.'' then acc
        else if importerPath \<in> relevant then
          let importerOutputDir = toOutputDir importerPath;
              newImporterPath =
                (case toNewPath importerPath of Some p \<Rightarrow> p | None \<Rightarrow> importerPath)
          in (case rewriteContext of
                None \<Rightarrow> assign newImporterPath importerData acc
              | Some ctx \<Rightarrow>
                  (case importerOutputDir of
                     None \<Rightarrow> assign newImporterPath importerData acc
                   | Some dir \<Rightarrow>
                       if dir \<noteq> [] then
                         assign newImporterPath
                           (rewriteImporter P importerData internalDeps dir (workspacesDir ctx))
                           acc
                       else assign newImporterPath importerData acc))
        else acc)"

definition reservedKeys :: "string list" where
  "reservedKeys = [''lockfileVersion'', ''importers'', ''packages'']"

definition pruneLockfile ::
  "path_module \<Rightarrow> 'u PnpmLockfile \<Rightarrow> string \<Rightarrow> string list \<Rightarrow> WorkspaceRegistry
    \<Rightarrow> RewriteContext option \<Rightarrow> 'u PnpmLockfile"
where
  "pruneLockfile P lockfile targetRelativeDir internalDeps registry rewriteContext =
     (case importers lockfile of
        None \<Rightarrow> lockfile
      | Some imps \<Rightarrow>
          let relevant = relevantDirs targetRelativeDir internalDeps registry;
              toOutputDir =
                importerPathToOutputDir P targetRelativeDir internalDeps registry rewriteContext;
              toNewPath =
                importerPathToNewPath targetRelativeDir internalDeps registry rewriteContext
          in \<lparr> lockfileVersion = lockfileVersion lockfile,
               importers =
                 Some (fold (pruneImporter P targetRelativeDir internalDeps rewriteContext
                               relevant toOutputDir toNewPath)
                         imps []),
               packages = (case packages lockfile of Some pk \<Rightarrow> Some pk | None \<Rightarrow> None),
               lockfile_extras =
                 fold (\<lambda>(key, val) pruned.
                         if key \<in> set reservedKeys then pruned else assign key val pruned)
                   (lockfile_extras lockfile) [] \<rparr>)"

subsection \<open>The Lockfile Loader\<close>

text \<open>
  \<^verbatim>\<open>fs-extra\<close>, \<^verbatim>\<open>yaml\<close> and the logger are not part of the repository: the loader takes
  them as a parameter. A call that may throw returns a sum, \<^const>\<open>Inl\<close> with the thrown
  error as \<^verbatim>\<open>${err}\<close> prints it. \<^verbatim>\<open>yaml.parse\<close> returns \<^verbatim>\<open>null\<close> for an empty document,
  which is \<^const>\<open>None\<close>. The result pairs the lines written with \<^verbatim>\<open>logger.debug\<close> and the
  value returned.
\<close>

record 'u node_env =
  existsSync :: "string \<Rightarrow> bool"
  readFileSync :: "string \<Rightarrow> string + string"
  yaml_parse :: "string \<Rightarrow> string + 'u PnpmLockfile option"

definition readPnpmLockfile ::
  "path_module \<Rightarrow> 'u node_env \<Rightarrow> string \<Rightarrow> string list \<times> 'u PnpmLockfile option"
where
  "readPnpmLockfile P env workspaceRoot =
     (let lockfilePath = path_join P workspaceRoot ''pnpm-lock.yaml''
      in if \<not> existsSync env lockfilePath then
           ([''No pnpm-lock.yaml found at '' @ lockfilePath], None)
         else
           (case readFileSync env lockfilePath of
              Inl err \<Rightarrow> ([''Failed to parse pnpm-lock.yaml: '' @ err], None)
            | Inr content \<Rightarrow>
                (case yaml_parse env content of
                   Inl err \<Rightarrow> ([''Failed to parse pnpm-lock.yaml: '' @ err], None)
                 | Inr lockfile \<Rightarrow> ([], lockfile))))"

definition absent_env :: "string node_env" where
  \<comment> \<open>a workspace root with no lockfile\<close>
  "absent_env =
     \<lparr> existsSync = (\<lambda>p. False),
       readFileSync = (\<lambda>p. Inl ''ENOENT: no such file or directory''),
       yaml_parse = (\<lambda>content. Inr None) \<rparr>"

definition malformed_env :: "string node_env" where
  \<comment> \<open>a lockfile that is there and is not YAML: an unclosed flow sequence\<close>
  "malformed_env =
     \<lparr> existsSync = (\<lambda>p. p = ''/repo/pnpm-lock.yaml''),
       readFileSync = (\<lambda>p. if p = ''/repo/pnpm-lock.yaml'' then Inr ''lockfileVersion: [''
                             else Inl ''ENOENT: no such file or directory''),
       yaml_parse = (\<lambda>content. if content = ''lockfileVersion: [''
                                  then Inl ''YAMLParseError: Flow sequence in block collection must be sufficiently indented and end with a ]''
                                  else Inr None) \<rparr>"

section \<open>The pruner on a store of objects\<close>

text \<open>
  Whether the pruner changes an object of its caller is a question about references, so
  here the objects live in a store and a value is a primitive or a reference. The store
  is the list of all objects ever created, an address is an index, and \<^verbatim>\<open>{}\<close>,
  \<^verbatim>\<open>{ ...o }\<close>, \<^verbatim>\<open>new Set\<close> and \<^verbatim>\<open>new Map\<close> append a new object. An assignment
  \<^verbatim>\<open>o[k] = v\<close>, \<^verbatim>\<open>set.add\<close> and \<^verbatim>\<open>map.set\<close> replace the object at an address. A plain
  object is the list of its own properties in enumeration order, and an assignment to it
  is \<open>assign\<close>; a \<^verbatim>\<open>Set\<close> and a \<^verbatim>\<open>Map\<close> keep the order of insertion.

  A run returns the store it ends with and either a value or an error: a \<^verbatim>\<open>TypeError\<close>
  where JavaScript throws one (a property of \<^verbatim>\<open>undefined\<close> or \<^verbatim>\<open>null\<close>, a call of a
  method the value does not have, a path that is not a string), and \<open>Unmodelled\<close>
  where the value is of a shape this model has no objects for (an array, the characters
  of a string used as an object, a \<^verbatim>\<open>Set\<close> or \<^verbatim>\<open>Map\<close> key that is not a string).
\<close>

datatype jsval = JUndefined | JNull | JBool bool | JNum number | JStr string | JRef nat

datatype heap_object =
    PlainObject "jsval obj"
  | SetObject "string list"
  | MapObject "jsval obj"

type_synonym heap = "heap_object list"

datatype js_error = TypeError | Unmodelled

type_synonym 'a run = "(js_error + 'a) \<times> heap"

definition ret :: "'a \<Rightarrow> heap \<Rightarrow> 'a run" where
  "ret x h = (Inr x, h)"

definition throw :: "js_error \<Rightarrow> heap \<Rightarrow> 'a run" where
  "throw e h = (Inl e, h)"

definition seq :: "(heap \<Rightarrow> 'a run) \<Rightarrow> ('a \<Rightarrow> heap \<Rightarrow> 'b run) \<Rightarrow> heap \<Rightarrow> 'b run" where
  \<comment> \<open>one statement after another; an error ends the run\<close>
  "seq m f h = (case m h of (Inl e, h') \<Rightarrow> (Inl e, h') | (Inr x, h') \<Rightarrow> f x h')"

fun forEach :: "'x list \<Rightarrow> ('x \<Rightarrow> heap \<Rightarrow> unit run) \<Rightarrow> heap \<Rightarrow> unit run" where
  \<comment> \<open>\<^verbatim>\<open>for (const x of xs) { body }\<close>\<close>
  "forEach [] body = ret ()"
| "forEach (x # xs) body = seq (body x) (\<lambda>_. forEach xs body)"

fun truthy :: "jsval \<Rightarrow> bool" where
  "truthy JUndefined = False"
| "truthy JNull = False"
| "truthy (JBool b) = b"
| "truthy (JNum n) = (case n of Finite m e \<Rightarrow> m \<noteq> 0 | NaN \<Rightarrow> False | _ \<Rightarrow> True)"
| "truthy (JStr s) = (s \<noteq> [])"
| "truthy (JRef a) = True"

definition getProp :: "jsval \<Rightarrow> string \<Rightarrow> heap \<Rightarrow> jsval run" where
  \<comment> \<open>\<^verbatim>\<open>v.k\<close> for a key that no prototype has\<close>
  "getProp v k h =
     (case v of
        JUndefined \<Rightarrow> (Inl TypeError, h)
      | JNull \<Rightarrow> (Inl TypeError, h)
      | JRef a \<Rightarrow>
          (if a < length h then
             (case h ! a of
                PlainObject ps \<Rightarrow>
                  (Inr (case map_of ps k of Some x \<Rightarrow> x | None \<Rightarrow> JUndefined), h)
              | _ \<Rightarrow> (Inr JUndefined, h))
           else (Inl Unmodelled, h))
      | _ \<Rightarrow> (Inr JUndefined, h))"

definition objectEntries :: "jsval \<Rightarrow> heap \<Rightarrow> jsval obj run" where
  \<comment> \<open>\<^verbatim>\<open>Object.entries(v)\<close>\<close>
  "objectEntries v h =
     (case v of
        JUndefined \<Rightarrow> (Inl TypeError, h)
      | JNull \<Rightarrow> (Inl TypeError, h)
      | JStr s \<Rightarrow> (Inl Unmodelled, h)
      | JRef a \<Rightarrow>
          (if a < length h then
             (case h ! a of PlainObject ps \<Rightarrow> (Inr ps, h) | _ \<Rightarrow> (Inr [], h))
           else (Inl Unmodelled, h))
      | _ \<Rightarrow> (Inr [], h))"

definition newObject :: "jsval obj \<Rightarrow> heap \<Rightarrow> nat run" where
  \<comment> \<open>an object literal: the address of the new object\<close>
  "newObject ps h = (Inr (length h), h @ [PlainObject ps])"

definition spread :: "jsval \<Rightarrow> heap \<Rightarrow> nat run" where
  \<comment> \<open>\<^verbatim>\<open>{ ...v }\<close>\<close>
  "spread v h =
     (case v of
        JStr s \<Rightarrow> (Inl Unmodelled, h)
      | JRef a \<Rightarrow>
          (if a < length h then
             (case h ! a of PlainObject ps \<Rightarrow> newObject ps h | _ \<Rightarrow> newObject [] h)
           else (Inl Unmodelled, h))
      | _ \<Rightarrow> newObject [] h)"

definition setProp :: "jsval \<Rightarrow> string \<Rightarrow> jsval \<Rightarrow> heap \<Rightarrow> unit run" where
  \<comment> \<open>\<^verbatim>\<open>target[k] = v\<close>, in strict mode, on an object that a literal or a spread has made\<close>
  "setProp target k v h =
     (case target of
        JRef a \<Rightarrow>
          (if a < length h then
             (case h ! a of
                PlainObject ps \<Rightarrow> (Inr (), h[a := PlainObject (assign k v ps)])
              | _ \<Rightarrow> (Inl Unmodelled, h))
           else (Inl Unmodelled, h))
      | _ \<Rightarrow> (Inl TypeError, h))"

definition newSet :: "string list \<Rightarrow> heap \<Rightarrow> nat run" where
  "newSet xs h = (Inr (length h), h @ [SetObject xs])"

definition setAdd :: "nat \<Rightarrow> jsval \<Rightarrow> heap \<Rightarrow> unit run" where
  \<comment> \<open>\<^verbatim>\<open>s.add(v)\<close> for the set at an address\<close>
  "setAdd a v h =
     (case v of
        JStr x \<Rightarrow>
          (if a < length h then
             (case h ! a of
                SetObject xs \<Rightarrow>
                  (Inr (), h[a := SetObject (if x \<in> set xs then xs else xs @ [x])])
              | _ \<Rightarrow> (Inl Unmodelled, h))
           else (Inl Unmodelled, h))
      | _ \<Rightarrow> (Inl Unmodelled, h))"

definition setHas :: "jsval \<Rightarrow> string \<Rightarrow> heap \<Rightarrow> bool run" where
  \<comment> \<open>\<^verbatim>\<open>s.has(x)\<close>\<close>
  "setHas s x h =
     (case s of
        JRef a \<Rightarrow>
          (if a < length h then
             (case h ! a of
                SetObject xs \<Rightarrow> (Inr (x \<in> set xs), h)
              | MapObject m \<Rightarrow> (Inl Unmodelled, h)
              | PlainObject ps \<Rightarrow> (Inl TypeError, h))
           else (Inl Unmodelled, h))
      | _ \<Rightarrow> (Inl TypeError, h))"

definition setValues :: "jsval \<Rightarrow> heap \<Rightarrow> string list run" where
  \<comment> \<open>the elements that \<^verbatim>\<open>for (const x of s)\<close> visits\<close>
  "setValues s h =
     (case s of
        JStr x \<Rightarrow> (Inl Unmodelled, h)
      | JRef a \<Rightarrow>
          (if a < length h then
             (case h ! a of
                SetObject xs \<Rightarrow> (Inr xs, h)
              | MapObject m \<Rightarrow> (Inl Unmodelled, h)
              | PlainObject ps \<Rightarrow> (Inl TypeError, h))
           else (Inl Unmodelled, h))
      | _ \<Rightarrow> (Inl TypeError, h))"

definition newMap :: "heap \<Rightarrow> nat run" where
  "newMap h = (Inr (length h), h @ [MapObject []])"

definition mapSet :: "nat \<Rightarrow> jsval \<Rightarrow> jsval \<Rightarrow> heap \<Rightarrow> unit run" where
  \<comment> \<open>\<^verbatim>\<open>m.set(k, v)\<close> for the map at an address\<close>
  "mapSet a k v h =
     (case k of
        JStr x \<Rightarrow>
          (if a < length h then
             (case h ! a of
                MapObject m \<Rightarrow> (Inr (), h[a := MapObject (AList.update x v m)])
              | _ \<Rightarrow> (Inl Unmodelled, h))
           else (Inl Unmodelled, h))
      | _ \<Rightarrow> (Inl Unmodelled, h))"

definition mapGet :: "jsval \<Rightarrow> string \<Rightarrow> heap \<Rightarrow> jsval run" where
  \<comment> \<open>\<^verbatim>\<open>m.get(k)\<close>\<close>
  "mapGet m k h =
     (case m of
        JRef a \<Rightarrow>
          (if a < length h then
             (case h ! a of
                MapObject kvs \<Rightarrow>
                  (Inr (case map_of kvs k of Some v \<Rightarrow> v | None \<Rightarrow> JUndefined), h)
              | _ \<Rightarrow> (Inl TypeError, h))
           else (Inl Unmodelled, h))
      | _ \<Rightarrow> (Inl TypeError, h))"

definition pathJoin :: "path_module \<Rightarrow> jsval \<Rightarrow> string \<Rightarrow> heap \<Rightarrow> string run" where
  \<comment> \<open>\<^verbatim>\<open>path.join(a, b)\<close> throws a \<^verbatim>\<open>TypeError\<close> for an argument that is not a string\<close>
  "pathJoin P a b h =
     (case a of JStr x \<Rightarrow> (Inr (path_join P x b), h) | _ \<Rightarrow> (Inl TypeError, h))"

definition getRelativePath_h :: "path_module \<Rightarrow> jsval \<Rightarrow> string \<Rightarrow> heap \<Rightarrow> string run" where
  "getRelativePath_h P from to h =
     (case from of JStr x \<Rightarrow> (Inr (getRelativePath P x to), h) | _ \<Rightarrow> (Inl TypeError, h))"

definition specifierStartsWith :: "jsval \<Rightarrow> string \<Rightarrow> heap \<Rightarrow> bool run" where
  \<comment> \<open>\<^verbatim>\<open>depInfo.specifier?.startsWith(p)\<close>, as a condition\<close>
  "specifierStartsWith depInfo p =
     seq (getProp depInfo ''specifier'') (\<lambda>s.
       case s of
         JUndefined \<Rightarrow> ret False
       | JNull \<Rightarrow> ret False
       | JStr x \<Rightarrow> ret (startsWith x p)
       | _ \<Rightarrow> throw TypeError)"

definition rewriteEntry_h ::
  "path_module \<Rightarrow> nat \<Rightarrow> jsval \<Rightarrow> jsval \<Rightarrow> jsval \<Rightarrow> string \<times> jsval \<Rightarrow> heap \<Rightarrow> unit run"
where
  \<comment> \<open>one round of the loop of \<^verbatim>\<open>rewriteImporterDependencies\<close>; \<open>result\<close> is the address
      the local variable holds\<close>
  "rewriteEntry_h P result internalDeps importerOutputDir wsDir entry =
     (case entry of (depName, depInfo) \<Rightarrow>
        seq (setHas internalDeps depName) (\<lambda>internal.
        seq (if internal then specifierStartsWith depInfo ''workspace:'' else ret False)
          (\<lambda>rewrite.
        if rewrite then
          seq (pathJoin P wsDir (safeName depName)) (\<lambda>depDir.
          seq (getRelativePath_h P importerOutputDir depDir) (\<lambda>relativePath.
          seq (newObject [(''specifier'', JStr (''file:'' @ relativePath)),
                          (''version'', JStr (''link:'' @ relativePath))]) (\<lambda>entry.
          setProp (JRef result) depName (JRef entry))))
        else setProp (JRef result) depName depInfo)))"

definition rewriteImporterDependencies_h ::
  "path_module \<Rightarrow> jsval \<Rightarrow> jsval \<Rightarrow> jsval \<Rightarrow> jsval \<Rightarrow> heap \<Rightarrow> jsval run"
where
  "rewriteImporterDependencies_h P deps internalDeps importerOutputDir wsDir =
     (if \<not> truthy deps then ret deps
      else
        seq (newObject []) (\<lambda>result.
        seq (objectEntries deps) (\<lambda>entries.
        seq (forEach entries
               (rewriteEntry_h P result internalDeps importerOutputDir wsDir)) (\<lambda>_.
        ret (JRef result)))))"

definition relevantDirs_h :: "string \<Rightarrow> jsval \<Rightarrow> jsval \<Rightarrow> heap \<Rightarrow> nat run" where
  "relevantDirs_h targetRelativeDir internalDeps registry =
     seq (newSet [targetRelativeDir]) (\<lambda>dirs.
     seq (setValues internalDeps) (\<lambda>depNames.
     seq (forEach depNames (\<lambda>depName.
            seq (mapGet registry depName) (\<lambda>pkg.
            if truthy pkg then
              seq (getProp pkg ''rootRelativeDir'') (\<lambda>dir. setAdd dirs dir)
            else ret ())))
       (\<lambda>_.
     ret dirs)))"

definition importerPathToOutputDir_h ::
  "path_module \<Rightarrow> string \<Rightarrow> jsval \<Rightarrow> jsval \<Rightarrow> jsval \<Rightarrow> heap \<Rightarrow> nat run"
where
  "importerPathToOutputDir_h P targetRelativeDir internalDeps registry rewriteContext =
     seq newMap (\<lambda>m.
     seq (if truthy rewriteContext then
            seq (getProp rewriteContext ''outputDir'') (\<lambda>out.
            seq (mapSet m (JStr targetRelativeDir) out) (\<lambda>_.
            seq (setValues internalDeps) (\<lambda>depNames.
            forEach depNames (\<lambda>depName.
              seq (mapGet registry depName) (\<lambda>pkg.
              if truthy pkg then
                seq (getProp pkg ''rootRelativeDir'') (\<lambda>dir.
                seq (getProp rewriteContext ''workspacesDir'') (\<lambda>ws.
                seq (pathJoin P ws (safeName depName)) (\<lambda>joined.
                mapSet m dir (JStr joined))))
              else ret ())))))
          else ret ())
       (\<lambda>_.
     ret m))"

definition importerPathToNewPath_h ::
  "string \<Rightarrow> jsval \<Rightarrow> jsval \<Rightarrow> jsval \<Rightarrow> heap \<Rightarrow> nat run"
where
  "importerPathToNewPath_h targetRelativeDir internalDeps registry rewriteContext =
     seq newMap (\<lambda>m.
     seq (if truthy rewriteContext then
            seq (mapSet m (JStr targetRelativeDir) (JStr ''.'')) (\<lambda>_.
            seq (setValues internalDeps) (\<lambda>depNames.
            forEach depNames (\<lambda>depName.
              seq (mapGet registry depName) (\<lambda>pkg.
              if truthy pkg then
                seq (getProp pkg ''rootRelativeDir'') (\<lambda>dir.
                mapSet m dir (JStr (''workspaces/'' @ safeName depName)))
              else ret ()))))
          else ret ())
       (\<lambda>_.
     ret m))"

definition rewriteField_h ::
  "path_module \<Rightarrow> jsval \<Rightarrow> nat \<Rightarrow> jsval \<Rightarrow> jsval \<Rightarrow> jsval \<Rightarrow> string \<Rightarrow> heap \<Rightarrow> unit run"
where
  \<comment> \<open>\<^verbatim>\<open>rewrittenImporter.f = rewriteImporterDependencies(importerData.f, internalDeps,
      importerOutputDir, rewriteContext.workspacesDir)\<close>, which the source writes out for
      each of the three categories \<open>f\<close>\<close>
  "rewriteField_h P importerData rewrittenImporter internalDeps importerOutputDir rewriteContext
      f =
     seq (getProp importerData f) (\<lambda>deps.
     seq (getProp rewriteContext ''workspacesDir'') (\<lambda>ws.
     seq (rewriteImporterDependencies_h P deps internalDeps importerOutputDir ws) (\<lambda>deps'.
     setProp (JRef rewrittenImporter) f deps')))"

definition rewriteImporter_h ::
  "path_module \<Rightarrow> jsval \<Rightarrow> jsval \<Rightarrow> jsval \<Rightarrow> jsval \<Rightarrow> heap \<Rightarrow> nat run"
where
  \<comment> \<open>\<^verbatim>\<open>rewrittenImporter\<close>: the copy and its three assignments\<close>
  "rewriteImporter_h P importerData internalDeps importerOutputDir rewriteContext =
     seq (spread importerData) (\<lambda>rewrittenImporter.
     seq (rewriteField_h P importerData rewrittenImporter internalDeps importerOutputDir
            rewriteContext ''dependencies'') (\<lambda>_.
     seq (rewriteField_h P importerData rewrittenImporter internalDeps importerOutputDir
            rewriteContext ''devDependencies'') (\<lambda>_.
     seq (rewriteField_h P importerData rewrittenImporter internalDeps importerOutputDir
            rewriteContext ''optionalDependencies'') (\<lambda>_.
     ret rewrittenImporter))))"

definition pruneImporter_h ::
  "path_module \<Rightarrow> nat \<Rightarrow> string \<Rightarrow> jsval \<Rightarrow> jsval \<Rightarrow> nat \<Rightarrow> nat \<Rightarrow> nat
    \<Rightarrow> string \<times> jsval \<Rightarrow> heap \<Rightarrow> unit run"
where
  \<comment> \<open>one round of the loop over the importers; \<open>pruned\<close>, \<open>dirs\<close>, \<open>toOutputDir\<close> and
      \<open>toNewPath\<close> are the addresses the local variables hold\<close>
  "pruneImporter_h P pruned targetRelativeDir internalDeps rewriteContext dirs toOutputDir
      toNewPath entry =
     (case entry of (importerPath, importerData) \<Rightarrow>
        if importerPath = ''.'' \<and> targetRelativeDir \<noteq> ''.'' then ret ()
        else
          seq (setHas (JRef dirs) importerPath) (\<lambda>relevant.
          if relevant then
            seq (mapGet (JRef toOutputDir) importerPath) (\<lambda>importerOutputDir.
            seq (mapGet (JRef toNewPath) importerPath) (\<lambda>newPath.
            seq (case newPath of
                   JUndefined \<Rightarrow> ret importerPath
                 | JNull \<Rightarrow> ret importerPath
                 | JStr p \<Rightarrow> ret p
                 | _ \<Rightarrow> throw Unmodelled) (\<lambda>newImporterPath.
            if truthy rewriteContext \<and> truthy importerOutputDir then
              seq (rewriteImporter_h P importerData internalDeps importerOutputDir
                     rewriteContext) (\<lambda>rewrittenImporter.
              seq (getProp (JRef pruned) ''importers'') (\<lambda>prunedImporters.
              setProp prunedImporters newImporterPath (JRef rewrittenImporter)))
            else
              seq (getProp (JRef pruned) ''importers'') (\<lambda>prunedImporters.
              setProp prunedImporters newImporterPath importerData))))
          else ret ()))"

definition pruneLockfile_h ::
  "path_module \<Rightarrow> jsval \<Rightarrow> string \<Rightarrow> jsval \<Rightarrow> jsval \<Rightarrow> jsval \<Rightarrow> heap \<Rightarrow> jsval run"
where
  "pruneLockfile_h P lockfile targetRelativeDir internalDeps registry rewriteContext =
     seq (getProp lockfile ''lockfileVersion'') (\<lambda>ver.
     seq (newObject [(''lockfileVersion'', ver)]) (\<lambda>pruned.
     seq (getProp lockfile ''importers'') (\<lambda>imps.
     if \<not> truthy imps then seq (spread lockfile) (\<lambda>copy. ret (JRef copy))
     else
       seq (relevantDirs_h targetRelativeDir internalDeps registry) (\<lambda>dirs.
       seq (importerPathToOutputDir_h P targetRelativeDir internalDeps registry rewriteContext)
         (\<lambda>toOutputDir.
       seq (importerPathToNewPath_h targetRelativeDir internalDeps registry rewriteContext)
         (\<lambda>toNewPath.
       seq (newObject []) (\<lambda>fresh.
       seq (setProp (JRef pruned) ''importers'' (JRef fresh)) (\<lambda>_.
       seq (getProp lockfile ''importers'') (\<lambda>imps.
       seq (objectEntries imps) (\<lambda>entries.
       seq (forEach entries
              (pruneImporter_h P pruned targetRelativeDir internalDeps rewriteContext dirs
                 toOutputDir toNewPath)) (\<lambda>_.
       seq (getProp lockfile ''packages'') (\<lambda>pk.
       seq (if truthy pk then
              seq (getProp lockfile ''packages'') (\<lambda>pk. setProp (JRef pruned) ''packages'' pk)
            else ret ()) (\<lambda>_.
       seq (objectEntries lockfile) (\<lambda>top.
       seq (forEach top (\<lambda>(key, val).
              if key \<in> set reservedKeys then ret () else setProp (JRef pruned) key val)) (\<lambda>_.
       ret (JRef pruned))))))))))))))))"

subsection \<open>What a run leaves alone\<close>

text \<open>
  \<open>extends h0 h\<close>: the store \<open>h\<close> still holds every object of \<open>h0\<close>, at its address and
  with its content. \<open>hoare A m B E\<close>: a run of \<open>m\<close> from a store in \<open>A\<close> ends in \<open>B\<close> with
  its value, or in \<open>E\<close> with an error. \<open>keeps I m Q\<close>: \<open>I\<close> holds after \<open>m\<close> when it holds
  before, and \<open>Q\<close> holds of the value. \<open>stable I n\<close>: \<open>I\<close> survives a new object and a write
  to an address from \<open>n\<close> on. \<open>local_object h0 pruned\<close>: the store extends \<open>h0\<close>, and
  \<open>pruned\<close>, the first object after \<open>h0\<close>, is a plain object whose \<^verbatim>\<open>importers\<close> property,
  once set, is a reference to a later object.
\<close>

definition extends :: "heap \<Rightarrow> heap \<Rightarrow> bool" where
  "extends h0 h = (take (length h0) h = h0)"

definition hoare ::
  "(heap \<Rightarrow> bool) \<Rightarrow> (heap \<Rightarrow> 'a run) \<Rightarrow> ('a \<Rightarrow> heap \<Rightarrow> bool) \<Rightarrow> (heap \<Rightarrow> bool) \<Rightarrow> bool"
where
  "hoare A m B E =
     (\<forall>h. A h \<longrightarrow> (case m h of (Inl e, h') \<Rightarrow> E h' | (Inr x, h') \<Rightarrow> B x h'))"

definition keeps :: "(heap \<Rightarrow> bool) \<Rightarrow> (heap \<Rightarrow> 'a run) \<Rightarrow> ('a \<Rightarrow> bool) \<Rightarrow> bool" where
  "keeps I m Q = hoare I m (\<lambda>x h. I h \<and> Q x) I"

definition stable :: "(heap \<Rightarrow> bool) \<Rightarrow> nat \<Rightarrow> bool" where
  "stable I n =
     (\<forall>h. I h \<longrightarrow> n \<le> length h \<and> (\<forall>obj. I (h @ [obj])) \<and> (\<forall>a obj. n \<le> a \<longrightarrow> I (h[a := obj])))"

definition local_object :: "heap \<Rightarrow> nat \<Rightarrow> heap \<Rightarrow> bool" where
  "local_object h0 pruned h =
     (extends h0 h \<and> pruned = length h0 \<and> pruned < length h \<and>
      (\<exists>ps. h ! pruned = PlainObject ps \<and>
            (\<forall>v. map_of ps ''importers'' = Some v \<longrightarrow> (\<exists>a. v = JRef a \<and> pruned < a))))"

subsection \<open>Objects of the store as values of the declared types\<close>



















subsection \<open>A workspace to run the code on\<close>

text \<open>
  A lockfile in the shape of the spec's end-to-end scenario: the workspace root, the
  target \<^verbatim>\<open>packages/a\<close>, its internal dependency \<^verbatim>\<open>@scope/b\<close> in \<^verbatim>\<open>packages/b\<close>, and an
  unrelated member \<^verbatim>\<open>packages/c\<close>. \<^verbatim>\<open>@scope/missing\<close> is an internal dependency name that
  the registry does not know.
\<close>

definition example_lockfile :: "jsval PnpmLockfile" where
  "example_lockfile =
     \<lparr> lockfileVersion = VersionString ''9.0'',
       importers = Some
         [(''.'', \<lparr> dependencies = Some [], devDependencies = None,
                    optionalDependencies = None, importer_extras = [] \<rparr>),
          (''packages/a'',
             \<lparr> dependencies = Some
                 [(''@scope/b'', \<lparr> specifier = ''workspace:*'', version = ''link:../b'' \<rparr>),
                  (''@scope/missing'',
                     \<lparr> specifier = ''workspace:*'', version = ''link:../missing'' \<rparr>),
                  (''foo'', \<lparr> specifier = ''1.2.3'', version = ''1.2.3'' \<rparr>)],
               devDependencies = None, optionalDependencies = None, importer_extras = [] \<rparr>),
          (''packages/b'',
             \<lparr> dependencies = Some
                 [(''lodash'', \<lparr> specifier = ''^4.17.0'', version = ''4.17.21'' \<rparr>)],
               devDependencies = None, optionalDependencies = None, importer_extras = [] \<rparr>),
          (''packages/c'',
             \<lparr> dependencies = Some [], devDependencies = None,
               optionalDependencies = None, importer_extras = [] \<rparr>)],
       packages = Some [(''lodash@4.17.21'', JStr ''resolution'')],
       lockfile_extras = [(''settings'', JStr ''autoInstallPeers'')] \<rparr>"

definition example_registry :: WorkspaceRegistry where
  "example_registry = [''@scope/b'' \<mapsto> \<lparr> rootRelativeDir = ''packages/b'' \<rparr>]"

definition example_context :: RewriteContext where
  "example_context = \<lparr> outputDir = ''/out'', workspacesDir = ''/out/workspaces'' \<rparr>"

definition single_package_lockfile :: "jsval PnpmLockfile" where
  \<comment> \<open>a lockfile with no \<^verbatim>\<open>importers\<close> field\<close>
  "single_package_lockfile =
     \<lparr> lockfileVersion = VersionNumber (Finite 6 0),
       importers = None,
       packages = Some [(''lodash@4.17.21'', JStr ''resolution'')],
       lockfile_extras = [(''dependencies'', JStr ''lodash'')] \<rparr>"

definition example_heap :: heap where
  \<comment> \<open>the example workspace as objects: the set of internal dependency names at 0, the
      registry at 2, the relocation context at 3, the lockfile at 18\<close>
  "example_heap =
     [SetObject [''@scope/b'', ''@scope/missing''],
      PlainObject [(''rootRelativeDir'', JStr ''packages/b'')],
      MapObject [(''@scope/b'', JRef 1)],
      PlainObject [(''outputDir'', JStr ''/out''), (''workspacesDir'', JStr ''/out/workspaces'')],
      PlainObject [],
      PlainObject [(''dependencies'', JRef 4)],
      PlainObject [(''specifier'', JStr ''workspace:*''), (''version'', JStr ''link:../b'')],
      PlainObject [(''specifier'', JStr ''workspace:*''), (''version'', JStr ''link:../missing'')],
      PlainObject [(''specifier'', JStr ''1.2.3''), (''version'', JStr ''1.2.3'')],
      PlainObject [(''@scope/b'', JRef 6), (''@scope/missing'', JRef 7), (''foo'', JRef 8)],
      PlainObject [(''dependencies'', JRef 9)],
      PlainObject [(''specifier'', JStr ''^4.17.0''), (''version'', JStr ''4.17.21'')],
      PlainObject [(''lodash'', JRef 11)],
      PlainObject [(''dependencies'', JRef 12)],
      PlainObject [],
      PlainObject [(''dependencies'', JRef 14)],
      PlainObject [(''.'', JRef 5), (''packages/a'', JRef 10), (''packages/b'', JRef 13),
                   (''packages/c'', JRef 15)],
      PlainObject [(''lodash@4.17.21'', JStr ''resolution'')],
      PlainObject [(''lockfileVersion'', JStr ''9.0''), (''importers'', JRef 16),
                   (''packages'', JRef 17), (''settings'', JStr ''autoInstallPeers'')]]"

section \<open>Properties\<close>

subsection \<open>Strings, objects and the POSIX path functions\<close>

lemma startsWith_iff: "startsWith s p = (\<exists>r. s = p @ r)"
proof
  assume "startsWith s p"
  then have "take (length p) s = p" by (simp add: startsWith_def)
  then have "s = p @ drop (length p) s" by (metis append_take_drop_id)
  then show "\<exists>r. s = p @ r" ..
next
  assume "\<exists>r. s = p @ r"
  then show "startsWith s p" by (auto simp: startsWith_def)
qed

lemma update_fresh: "k \<notin> fst ` set al \<Longrightarrow> AList.update k v al = al @ [(k, v)]"
  by (induction al) auto

lemma set_update_subset: "set (AList.update k v al) \<subseteq> insert (k, v) (set al)"
  by (induction al) auto

lemma arrayIndex_no_digit:
  "k \<noteq> [] \<Longrightarrow> hd k \<notin> set ''123456789'' \<Longrightarrow> k \<noteq> ''0'' \<Longrightarrow> arrayIndex k = None"
  by (cases k) (auto simp: arrayIndex_def)

lemma place_append:
  "(\<And>k'. k' \<in> fst ` set al \<Longrightarrow> keyBefore k' k) \<Longrightarrow> place k v al = al @ [(k, v)]"
  by (induction al) auto

lemma place_plain: "arrayIndex k = None \<Longrightarrow> place k v al = al @ [(k, v)]"
  by (rule place_append) (simp add: keyBefore_def)

lemma set_place: "set (place k v al) = insert (k, v) (set al)"
  by (induction al) auto

lemma assign_plain:
  "arrayIndex k = None \<Longrightarrow> k \<noteq> ''__proto__'' \<Longrightarrow> assign k v al = AList.update k v al"
  by (simp add: assign_def place_plain update_fresh)

lemma assign_proto: "''__proto__'' \<notin> fst ` set al \<Longrightarrow> assign ''__proto__'' v al = al"
  by (simp add: assign_def)

lemma map_of_place:
  "k \<notin> fst ` set al \<Longrightarrow> map_of (place k v al) k' = (if k' = k then Some v else map_of al k')"
  by (induction al) auto

lemma map_of_assign:
  "map_of (assign k v al) k' =
     (if k' = k \<and> (k \<in> fst ` set al \<or> k \<noteq> ''__proto__'') then Some v else map_of al k')"
  by (simp add: assign_def map_of_place update_conv')

lemma set_assign_subset: "set (assign k v al) \<subseteq> insert (k, v) (set al)"
  using set_update_subset [of k v al] by (auto simp: assign_def set_place)





lemma fold_assign_filter:
  assumes g: "\<And>k v res. g (k, v) res = (if Q k then assign k (w k v) res else res)"
  shows "distinct (map fst xs) \<Longrightarrow> fst ` set xs \<inter> fst ` set acc = {} \<Longrightarrow>
         sorted_wrt keyBefore (map fst acc @ map fst xs) \<Longrightarrow>
         fold g xs acc =
           acc @ map (\<lambda>(k, v). (k, w k v)) (filter (\<lambda>(k, v). Q k \<and> k \<noteq> ''__proto__'') xs)"
proof (induction xs arbitrary: acc)
  case Nil
  then show ?case by simp
next
  case (Cons e xs)
  obtain k v where e: "e = (k, v)" by (cases e)
  from Cons.prems have fresh: "k \<notin> fst ` set acc" by (auto simp: e)
  have dis: "distinct (map fst xs)" using Cons.prems by simp
  show ?case
  proof (cases "Q k \<and> k \<noteq> ''__proto__''")
    case True
    from Cons.prems(3) have "\<And>k'. k' \<in> fst ` set acc \<Longrightarrow> keyBefore k' k"
      by (auto simp: e sorted_wrt_append)
    then have pl: "place k (w k v) acc = acc @ [(k, w k v)]" by (rule place_append)
    have sep: "fst ` set xs \<inter> fst ` set (acc @ [(k, w k v)]) = {}"
      using Cons.prems by (auto simp: e)
    have srt: "sorted_wrt keyBefore (map fst (acc @ [(k, w k v)]) @ map fst xs)"
      using Cons.prems(3) by (simp add: e)
    show ?thesis
      using Cons.IH [OF dis sep srt] True fresh by (simp add: e g assign_def pl)
  next
    case False
    have sep: "fst ` set xs \<inter> fst ` set acc = {}"
      using Cons.prems by auto
    have srt: "sorted_wrt keyBefore (map fst acc @ map fst xs)"
      using Cons.prems(3) by (auto simp: e sorted_wrt_append)
    have "g e acc = acc"
      using False fresh by (auto simp: e g assign_def)
    with Cons.IH [OF dis sep srt] False show ?thesis by (auto simp: e)
  qed
qed




lemmas posix_eval =
  posix_def posix_join_def posix_normalize_def posix_relative_def posix_resolve_def
  normalizeString_def intercalate_def startsWith_def getRelativePath_def safeName_def Let_def

subsection \<open>The Path Rewriter\<close>

text \<open>
  C7, as the code has it. For every pair of paths \<open>(a, b)\<close> and every implementation of
  \<^verbatim>\<open>path.relative\<close>, \<open>getRelativePath a b\<close> starts with the character \<^verbatim>\<open>.\<close>: when the raw
  relativization already starts with \<^verbatim>\<open>.\<close> it is returned as it is, otherwise it is
  prefixed with \<^verbatim>\<open>./\<close>. The function is a total function of its arguments; when the raw
  relativization is empty (\<open>a\<close> equal to \<open>b\<close>) the result is \<^verbatim>\<open>./\<close>.
\<close>

theorem getRelativePath_starts_with_dot:
  "startsWith (getRelativePath P a b) ''.'' \<and>
   getRelativePath P a b =
     (if startsWith (path_relative P a b) ''.'' then path_relative P a b
      else ''./'' @ path_relative P a b) \<and>
   getRelativePath (posix cwd) a a = ''./''"
  by (simp add: getRelativePath_def Let_def startsWith_def posix_def posix_relative_def)

text \<open>
  C7 as the claim words it says more: that the result either begins with the parent
  marker \<^verbatim>\<open>..\<close> or is prefixed with \<^verbatim>\<open>./\<close>. The guard of the code is
  \<^verbatim>\<open>startsWith(".")\<close>, so a raw relativization whose first segment is a dot name is
  returned bare: from \<^verbatim>\<open>/out\<close> to \<^verbatim>\<open>/out/.cache\<close> the result is \<^verbatim>\<open>.cache\<close>.
\<close>

theorem getRelativePath_dot_name_counterexample:
  "getRelativePath (posix ''/'') ''/out'' ''/out/.cache'' = ''.cache'' \<and>
   \<not> startsWith (getRelativePath (posix ''/'') ''/out'' ''/out/.cache'') ''..'' \<and>
   \<not> startsWith (getRelativePath (posix ''/'') ''/out'' ''/out/.cache'') ''./''"
  by (simp add: posix_eval)

subsection \<open>The Dependency Rewriter\<close>

lemma rewriteImporterDependencies_map:
  assumes "isObject d"
  shows "rewriteImporterDependencies P (Some d) ds dir ws =
           Some (map (\<lambda>(n, e). (n, rewriteEntry P ds dir ws n e))
                   (filter (\<lambda>(n, e). n \<noteq> ''__proto__'') d))"
proof -
  have "fold (\<lambda>(n, e) result. assign n (rewriteEntry P ds dir ws n e) result) d [] =
          [] @ map (\<lambda>(n, e). (n, rewriteEntry P ds dir ws n e))
                 (filter (\<lambda>(n, e). True \<and> n \<noteq> ''__proto__'') d)"
    using assms
    by (intro fold_assign_filter [where Q = "\<lambda>n. True"]) (simp_all add: isObject_def)
  then show ?thesis by (simp add: rewriteImporterDependencies_def)
qed


lemma safeName_eq:
  "safeName n =
     map (\<lambda>c. if c = CHR ''/'' then CHR ''-'' else c)
       (if n \<noteq> [] \<and> hd n = CHR ''@'' then tl n else n)"
  by (cases n) (simp_all add: safeName_def)


lemma rewriteImporterDependencies_None:
  "(rewriteImporterDependencies P deps internalDeps dir ws = None) = (deps = None)"
  by (cases deps) (simp_all add: rewriteImporterDependencies_def)

lemmas assign_eval = assign_plain assign_proto arrayIndex_no_digit

text \<open>
  C1, where the code departs from it. For a mapping that has no key \<^verbatim>\<open>__proto__\<close> the
  rewriter does what the claim says (\<open>rewriteImporterDependencies_map\<close>,
  \<open>rewriteEntry_selective\<close>): the entry of an internal name whose specifier starts with
  \<^verbatim>\<open>workspace:\<close> is replaced, every other entry is the input's. An entry under the own key
  \<^verbatim>\<open>__proto__\<close> is neither replaced nor passed through: \<^verbatim>\<open>result[depName] = depInfo\<close>
  calls the setter of \<^verbatim>\<open>Object.prototype\<close> and \<open>result\<close> gets no entry. Here the input holds
  \<^verbatim>\<open>__proto__\<close>, an internal name with a \<^verbatim>\<open>workspace:\<close> specifier and an external name; the
  result holds the last two.
\<close>

theorem rewrite_loses_proto_entry:
  "rewriteImporterDependencies (posix ''/'')
     (Some [(''__proto__'', \<lparr> specifier = ''^1.0.0'', version = ''1.0.2'' \<rparr>),
            (''@scope/b'', \<lparr> specifier = ''workspace:*'', version = ''link:../b'' \<rparr>),
            (''foo'', \<lparr> specifier = ''1.2.3'', version = ''1.2.3'' \<rparr>)])
     [''@scope/b'', ''foo''] ''/out'' ''/out/workspaces'' =
   Some [(''@scope/b'', \<lparr> specifier = ''file:./workspaces/scope-b'',
                          version = ''link:./workspaces/scope-b'' \<rparr>),
         (''foo'', \<lparr> specifier = ''1.2.3'', version = ''1.2.3'' \<rparr>)]"
  by (simp add: rewriteImporterDependencies_def rewriteEntry_def assign_eval posix_eval)

text \<open>
  C8, where the code departs from it. The rewriter returns the absent result exactly when
  \<open>deps\<close> is absent (\<open>rewriteImporterDependencies_None\<close>), and for a mapping that has no
  key \<^verbatim>\<open>__proto__\<close> the result has the input's keys in the input's order
  (\<open>rewriteImporterDependencies_map\<close>). For a mapping with the own key \<^verbatim>\<open>__proto__\<close> the
  result's keys are not the input's: that key is missing.
\<close>

theorem rewrite_keys_without_proto:
  "map fst (the (rewriteImporterDependencies (posix ''/'')
     (Some [(''a'', \<lparr> specifier = ''^1.0.0'', version = ''1.0.2'' \<rparr>),
            (''__proto__'', \<lparr> specifier = ''^2.0.0'', version = ''2.0.0'' \<rparr>),
            (''b'', \<lparr> specifier = ''workspace:*'', version = ''link:../b'' \<rparr>)])
     [''b''] ''/out'' ''/out/workspaces'')) = [''a'', ''b''] \<and>
   map fst [(''a'', \<lparr> specifier = ''^1.0.0'', version = ''1.0.2'' \<rparr>),
            (''__proto__'', \<lparr> specifier = ''^2.0.0'', version = ''2.0.0'' \<rparr>),
            (''b'', \<lparr> specifier = ''workspace:*'', version = ''link:../b'' \<rparr>)] =
     [''a'', ''__proto__'', ''b'']"
  by (simp add: rewriteImporterDependencies_def rewriteEntry_def assign_eval posix_eval)

subsection \<open>The Lockfile Pruner\<close>

lemma fold_skip:
  "(\<And>x. x \<in> set xs \<Longrightarrow> \<not> Q x \<Longrightarrow> f x = id) \<Longrightarrow> fold f (filter Q xs) s = fold f xs s"
  by (induction xs arbitrary: s) auto

lemma relevantDirs_fold:
  "fold (\<lambda>depName dirs. case registry depName of
            Some pkg \<Rightarrow> insert (rootRelativeDir pkg) dirs | None \<Rightarrow> dirs) ds S =
   S \<union> {rootRelativeDir pkg | pkg n. n \<in> set ds \<and> registry n = Some pkg}"
proof (induction ds arbitrary: S)
  case Nil
  then show ?case by simp
next
  case (Cons a ds)
  show ?case by (cases "registry a") (auto simp: Cons.IH)
qed

lemma relevantDirs_eq:
  "relevantDirs t ds registry =
     insert t {rootRelativeDir pkg | pkg n. n \<in> set ds \<and> registry n = Some pkg}"
  by (simp add: relevantDirs_def relevantDirs_fold)

lemma table_fold_dom:
  "dom (fold (\<lambda>depName m. case registry depName of
            Some pkg \<Rightarrow> m(rootRelativeDir pkg \<mapsto> g depName) | None \<Rightarrow> m) ds m0) =
   dom m0 \<union> {rootRelativeDir pkg | pkg n. n \<in> set ds \<and> registry n = Some pkg}"
proof (induction ds arbitrary: m0)
  case Nil
  then show ?case by simp
next
  case (Cons a ds)
  show ?case
  proof (cases "registry a")
    case None
    then show ?thesis by (auto simp: Cons.IH)
  next
    case (Some pkg)
    then show ?thesis by (auto simp: Cons.IH split: if_splits)
  qed
qed

lemma table_fold_value:
  "fold (\<lambda>depName m. case registry depName of
            Some pkg \<Rightarrow> m(rootRelativeDir pkg \<mapsto> g depName) | None \<Rightarrow> m) ds m0 p = Some v \<Longrightarrow>
   m0 p = Some v \<or> (\<exists>n pkg. n \<in> set ds \<and> registry n = Some pkg \<and> rootRelativeDir pkg = p \<and> v = g n)"
proof (induction ds arbitrary: m0)
  case Nil
  then show ?case by simp
next
  case (Cons a ds)
  show ?case
  proof (cases "registry a")
    case None
    with Cons.prems have "fold (\<lambda>depName m. case registry depName of
            Some pkg \<Rightarrow> m(rootRelativeDir pkg \<mapsto> g depName) | None \<Rightarrow> m) ds m0 p = Some v"
      by simp
    from Cons.IH [OF this] show ?thesis by auto
  next
    case (Some pkg)
    with Cons.prems have "fold (\<lambda>depName m. case registry depName of
            Some pkg \<Rightarrow> m(rootRelativeDir pkg \<mapsto> g depName) | None \<Rightarrow> m) ds
             (m0(rootRelativeDir pkg \<mapsto> g a)) p = Some v"
      by simp
    from Cons.IH [OF this] Some show ?thesis by (auto split: if_splits)
  qed
qed

lemma toOutputDir_dom:
  "dom (importerPathToOutputDir P t ds registry (Some c)) = relevantDirs t ds registry"
  by (simp add: importerPathToOutputDir_def table_fold_dom relevantDirs_eq)

lemma toNewPath_dom:
  "dom (importerPathToNewPath t ds registry (Some c)) = relevantDirs t ds registry"
  by (simp add: importerPathToNewPath_def table_fold_dom relevantDirs_eq)

lemma toNewPath_root:
  assumes "importerPathToNewPath t ds registry ctx p = Some ''.''"
  shows "ctx \<noteq> None \<and> p = t"
proof (cases ctx)
  case None
  with assms show ?thesis by (simp add: importerPathToNewPath_def)
next
  case (Some c)
  with assms have "fold (\<lambda>depName m. case registry depName of
            Some pkg \<Rightarrow> m(rootRelativeDir pkg \<mapsto> ''workspaces/'' @ safeName depName) | None \<Rightarrow> m)
          ds [t \<mapsto> ''.''] p = Some ''.''"
    by (simp add: importerPathToNewPath_def)
  from table_fold_value [OF this] Some show ?thesis
    by (auto split: if_splits)
qed

lemma toOutputDir_value:
  assumes "importerPathToOutputDir P t ds registry (Some c) p = Some dir"
  shows "dir = outputDir c \<or> (\<exists>n. dir = path_join P (workspacesDir c) (safeName n))"
proof -
  from assms have "fold (\<lambda>depName m. case registry depName of
            Some pkg \<Rightarrow> m(rootRelativeDir pkg \<mapsto> path_join P (workspacesDir c) (safeName depName))
          | None \<Rightarrow> m) ds [t \<mapsto> outputDir c] p = Some dir"
    by (simp add: importerPathToOutputDir_def)
  from table_fold_value [OF this] show ?thesis
    by (auto split: if_splits)
qed

lemma pruneImporter_eq:
  "pruneImporter P t ds ctx R toOut toNew (p, d) acc =
     (if (p = ''.'' \<and> t \<noteq> ''.'') \<or> p \<notin> R then acc
      else assign (case toNew p of Some q \<Rightarrow> q | None \<Rightarrow> p)
             (case ctx of
                None \<Rightarrow> d
              | Some c \<Rightarrow>
                  (case toOut p of
                     None \<Rightarrow> d
                   | Some dir \<Rightarrow>
                       if dir \<noteq> [] then rewriteImporter P d ds dir (workspacesDir c) else d))
             acc)"
  by (auto simp: pruneImporter_def Let_def split: option.splits)

lemma prune_provenance:
  assumes "(k, v) \<in> set (fold (pruneImporter P t ds ctx R toOut toNew) imps acc)"
  shows "(k, v) \<in> set acc \<or>
         (\<exists>p d. (p, d) \<in> set imps \<and> p \<in> R \<and> \<not> (p = ''.'' \<and> t \<noteq> ''.'') \<and>
                k = (case toNew p of Some q \<Rightarrow> q | None \<Rightarrow> p) \<and>
                v = (case ctx of
                       None \<Rightarrow> d
                     | Some c \<Rightarrow>
                         (case toOut p of
                            None \<Rightarrow> d
                          | Some dir \<Rightarrow>
                              if dir \<noteq> [] then rewriteImporter P d ds dir (workspacesDir c)
                              else d)))"
  using assms
proof (induction imps arbitrary: acc)
  case Nil
  then show ?case by simp
next
  case (Cons e imps)
  obtain p d where e: "e = (p, d)" by (cases e)
  let ?acc' = "pruneImporter P t ds ctx R toOut toNew (p, d) acc"
  let ?key = "case toNew p of Some q \<Rightarrow> q | None \<Rightarrow> p"
  let ?val = "case ctx of
                None \<Rightarrow> d
              | Some c \<Rightarrow>
                  (case toOut p of
                     None \<Rightarrow> d
                   | Some dir \<Rightarrow>
                       if dir \<noteq> [] then rewriteImporter P d ds dir (workspacesDir c) else d)"
  from Cons.prems have "(k, v) \<in> set (fold (pruneImporter P t ds ctx R toOut toNew) imps ?acc')"
    by (simp add: e)
  from Cons.IH [OF this] show ?case
  proof
    assume old: "(k, v) \<in> set ?acc'"
    show ?thesis
    proof (cases "(p = ''.'' \<and> t \<noteq> ''.'') \<or> p \<notin> R")
      case True
      with old have "(k, v) \<in> set acc" by (simp add: pruneImporter_eq)
      then show ?thesis by simp
    next
      case False
      with old have "(k, v) \<in> set (assign ?key ?val acc)"
        by (simp add: pruneImporter_eq)
      with set_assign_subset [of ?key ?val acc]
      have "(k, v) = (?key, ?val) \<or> (k, v) \<in> set acc" by auto
      then show ?thesis
      proof
        assume "(k, v) \<in> set acc"
        then show ?thesis by simp
      next
        assume "(k, v) = (?key, ?val)"
        with False have "(p, d) \<in> set (e # imps) \<and> p \<in> R \<and> \<not> (p = ''.'' \<and> t \<noteq> ''.'') \<and>
            k = ?key \<and> v = ?val"
          by (simp add: e)
        then show ?thesis by blast
      qed
    qed
  next
    assume "\<exists>p d. (p, d) \<in> set imps \<and> p \<in> R \<and> \<not> (p = ''.'' \<and> t \<noteq> ''.'') \<and>
                k = (case toNew p of Some q \<Rightarrow> q | None \<Rightarrow> p) \<and>
                v = (case ctx of
                       None \<Rightarrow> d
                     | Some c \<Rightarrow>
                         (case toOut p of
                            None \<Rightarrow> d
                          | Some dir \<Rightarrow>
                              if dir \<noteq> [] then rewriteImporter P d ds dir (workspacesDir c)
                              else d))"
    then show ?thesis by auto
  qed
qed

lemma prune_no_relocation:
  assumes "isObject imps"
  shows "fold (pruneImporter P t ds None R Map.empty Map.empty) imps [] =
           filter (\<lambda>(p, d). (\<not> (p = ''.'' \<and> t \<noteq> ''.'') \<and> p \<in> R) \<and> p \<noteq> ''__proto__'') imps"
proof -
  have "fold (pruneImporter P t ds None R Map.empty Map.empty) imps [] =
          [] @ map (\<lambda>(p, d). (p, d))
                 (filter (\<lambda>(p, d). (\<not> (p = ''.'' \<and> t \<noteq> ''.'') \<and> p \<in> R) \<and> p \<noteq> ''__proto__'')
                    imps)"
    using assms
    by (intro fold_assign_filter [where Q = "\<lambda>p. \<not> (p = ''.'' \<and> t \<noteq> ''.'') \<and> p \<in> R"])
       (auto simp: pruneImporter_eq isObject_def)
  then show ?thesis by simp
qed


lemma prune_skips_root:
  assumes "t \<noteq> ''.''"
  shows "fold (pruneImporter P t ds ctx R toOut toNew) (filter (\<lambda>(p, d). p \<noteq> ''.'') imps) acc =
         fold (pruneImporter P t ds ctx R toOut toNew) imps acc"
  by (rule fold_skip) (auto simp: pruneImporter_eq assms fun_eq_iff)

lemma extras_kept:
  assumes "isObject xs"
  shows "fold (\<lambda>(key, val) pruned.
                 if key \<in> set reservedKeys then pruned else assign key val pruned) xs [] =
         filter (\<lambda>(key, val). key \<notin> set reservedKeys \<and> key \<noteq> ''__proto__'') xs"
proof -
  have "fold (\<lambda>(key, val) pruned.
                 if key \<in> set reservedKeys then pruned else assign key val pruned) xs [] =
         [] @ map (\<lambda>(key, val). (key, val))
                (filter (\<lambda>(key, val). key \<notin> set reservedKeys \<and> key \<noteq> ''__proto__'') xs)"
    using assms
    by (intro fold_assign_filter [where Q = "\<lambda>key. key \<notin> set reservedKeys"])
       (auto simp: isObject_def)
  then show ?thesis by simp
qed

lemma posix_join_nonempty: "posix_join a b \<noteq> []"
proof -
  have n: "posix_normalize p \<noteq> []" for p
    by (simp add: posix_normalize_def Let_def)
  show ?thesis
    by (simp add: posix_join_def n split: list.splits)
qed


lemmas prune_eval =
  pruneLockfile_def relevantDirs_def importerPathToOutputDir_def importerPathToNewPath_def
  pruneImporter_def rewriteImporter_def rewriteImporterDependencies_def rewriteEntry_def
  reservedKeys_def example_lockfile_def example_registry_def example_context_def
  single_package_lockfile_def assign_eval

text \<open>
  C3. When the lockfile has no \<^verbatim>\<open>importers\<close> field, the pruner returns
  \<^verbatim>\<open>{ ...lockfile }\<close>: a value equal to the input, whatever the target, the internal
  dependencies, the registry and the relocation context are.
\<close>

theorem no_importers_passthrough:
  "importers lockfile = None \<Longrightarrow>
   pruneLockfile P lockfile targetRelativeDir internalDeps registry rewriteContext = lockfile"
  by (simp add: pruneLockfile_def)

theorem no_importers_passthrough_witness:
  "importers single_package_lockfile = None \<and>
   pruneLockfile (posix ''/'') single_package_lockfile ''packages/a'' [''@scope/b'']
     example_registry (Some example_context) = single_package_lockfile"
proof -
  have n: "importers single_package_lockfile = None"
    by (simp add: single_package_lockfile_def)
  from n no_importers_passthrough [OF n] show ?thesis by simp
qed

lemma prune_frame:
  assumes "importers lockfile = Some imps"
    and "isObject (lockfile_extras lockfile)"
  shows "lockfileVersion (pruneLockfile P lockfile t ds registry ctx) = lockfileVersion lockfile \<and>
         packages (pruneLockfile P lockfile t ds registry ctx) = packages lockfile \<and>
         lockfile_extras (pruneLockfile P lockfile t ds registry ctx) =
           filter (\<lambda>(key, val). key \<notin> {''lockfileVersion'', ''importers'', ''packages''} \<and>
                                  key \<noteq> ''__proto__'')
             (lockfile_extras lockfile)"
proof (intro conjI)
  show "lockfileVersion (pruneLockfile P lockfile t ds registry ctx) = lockfileVersion lockfile"
    using assms(1) by (simp add: pruneLockfile_def Let_def)
  show "packages (pruneLockfile P lockfile t ds registry ctx) = packages lockfile"
    using assms(1) by (simp add: pruneLockfile_def Let_def split: option.splits)
  have "lockfile_extras (pruneLockfile P lockfile t ds registry ctx) =
          filter (\<lambda>(key, val). key \<notin> set reservedKeys \<and> key \<noteq> ''__proto__'')
            (lockfile_extras lockfile)"
    using assms(1) by (simp add: pruneLockfile_def Let_def extras_kept [OF assms(2)])
  then show "lockfile_extras (pruneLockfile P lockfile t ds registry ctx) =
           filter (\<lambda>(key, val). key \<notin> {''lockfileVersion'', ''importers'', ''packages''} \<and>
                                  key \<noteq> ''__proto__'')
             (lockfile_extras lockfile)"
    by (simp add: reservedKeys_def)
qed

text \<open>
  C4, where the code departs from it. When the lockfile has an \<^verbatim>\<open>importers\<close> field, the
  result's \<^verbatim>\<open>lockfileVersion\<close> is the input's (a string stays that string, a number that
  number), its \<^verbatim>\<open>packages\<close> field is the input's, and its other top-level entries are the
  input's entries whose key is not \<^verbatim>\<open>lockfileVersion\<close>, \<^verbatim>\<open>importers\<close>, \<^verbatim>\<open>packages\<close> or
  \<^verbatim>\<open>__proto__\<close> (\<open>prune_frame\<close>). A top-level entry under the own key \<^verbatim>\<open>__proto__\<close> does not
  appear in the result: \<^verbatim>\<open>pruned[key] = value\<close> calls the setter of \<^verbatim>\<open>Object.prototype\<close>.
  Here the example lockfile has the top-level keys \<^verbatim>\<open>__proto__\<close> and \<^verbatim>\<open>settings\<close> besides the
  three; the result has \<^verbatim>\<open>settings\<close> alone.
\<close>

theorem prune_loses_proto_key:
  "lockfile_extras
     (pruneLockfile (posix ''/'')
        (example_lockfile
           \<lparr> lockfile_extras :=
               [(''__proto__'', JStr ''legacy''), (''settings'', JStr ''autoInstallPeers'')] \<rparr>)
        ''packages/a'' [''@scope/b''] example_registry None) =
     [(''settings'', JStr ''autoInstallPeers'')] \<and>
   importers
     (example_lockfile
        \<lparr> lockfile_extras :=
            [(''__proto__'', JStr ''legacy''), (''settings'', JStr ''autoInstallPeers'')] \<rparr>) \<noteq>
     None"
  by (simp add: pruneLockfile_def Let_def reservedKeys_def example_lockfile_def assign_eval)

text \<open>
  C2, as the code has it. Let the target differ from \<^verbatim>\<open>.\<close>. The loop skips the input's
  root importer: the result's importers are those the pruner gives for the input without
  its root importer, and every one of them comes from an input importer whose path is not
  \<^verbatim>\<open>.\<close> and is relevant, stored under that path's new path (or the path itself), as it
  is or rewritten. With no relocation context the key \<^verbatim>\<open>.\<close> is absent from the result's
  importers. With a relocation context the key \<^verbatim>\<open>.\<close> can be there: it is then the new
  path of the target (\<^verbatim>\<open>importerPathToNewPath.set(targetRelativeDir, ".")\<close>), and the value
  stored under it is the importer the input holds under the target's path, rewritten or
  as it is.
\<close>

theorem root_importer_skipped:
  assumes "importers lockfile = Some imps"
    and "t \<noteq> ''.''"
  shows "\<exists>pruned. importers (pruneLockfile P lockfile t ds registry ctx) = Some pruned \<and>
           importers (pruneLockfile P
                        (lockfile \<lparr> importers := Some (filter (\<lambda>(p, d). p \<noteq> ''.'') imps) \<rparr>)
                        t ds registry ctx) = Some pruned \<and>
           (\<forall>(k, v) \<in> set pruned. \<exists>(p, d) \<in> set imps.
              p \<noteq> ''.'' \<and> p \<in> relevantDirs t ds registry \<and>
              k = (case importerPathToNewPath t ds registry ctx p of Some q \<Rightarrow> q | None \<Rightarrow> p) \<and>
              (v = d \<or> (\<exists>c dir. ctx = Some c \<and> v = rewriteImporter P d ds dir (workspacesDir c)))) \<and>
           (ctx = None \<longrightarrow> ''.'' \<notin> fst ` set pruned) \<and>
           (\<forall>v. (''.'', v) \<in> set pruned \<longrightarrow>
              (\<exists>c d. ctx = Some c \<and> (t, d) \<in> set imps \<and>
                 importerPathToNewPath t ds registry ctx t = Some ''.'' \<and>
                 (v = d \<or> (\<exists>dir. v = rewriteImporter P d ds dir (workspacesDir c)))))"
proof -
  let ?R = "relevantDirs t ds registry"
  let ?toOut = "importerPathToOutputDir P t ds registry ctx"
  let ?toNew = "importerPathToNewPath t ds registry ctx"
  let ?pruned = "fold (pruneImporter P t ds ctx ?R ?toOut ?toNew) imps []"
  have res: "importers (pruneLockfile P lockfile t ds registry ctx) = Some ?pruned"
    using assms(1) by (simp add: pruneLockfile_def Let_def)
  have res': "importers (pruneLockfile P
                 (lockfile \<lparr> importers := Some (filter (\<lambda>(p, d). p \<noteq> ''.'') imps) \<rparr>)
                 t ds registry ctx) = Some ?pruned"
    by (simp add: pruneLockfile_def Let_def prune_skips_root [OF assms(2)])
  have src: "\<exists>p d. (p, d) \<in> set imps \<and> p \<noteq> ''.'' \<and> p \<in> ?R \<and>
               k = (case ?toNew p of Some q \<Rightarrow> q | None \<Rightarrow> p) \<and>
               (v = d \<or> (\<exists>c dir. ctx = Some c \<and> v = rewriteImporter P d ds dir (workspacesDir c)))"
    if "(k, v) \<in> set ?pruned" for k v
  proof -
    from prune_provenance [OF that] obtain p d where
      pd: "(p, d) \<in> set imps" and rel: "p \<in> ?R" and skip: "\<not> (p = ''.'' \<and> t \<noteq> ''.'')" and
      key: "k = (case ?toNew p of Some q \<Rightarrow> q | None \<Rightarrow> p)" and
      val: "v = (case ctx of None \<Rightarrow> d
                 | Some c \<Rightarrow> (case ?toOut p of None \<Rightarrow> d
                     | Some dir \<Rightarrow> if dir \<noteq> [] then rewriteImporter P d ds dir (workspacesDir c)
                                  else d))"
      by auto
    from skip assms(2) have "p \<noteq> ''.''" by simp
    moreover from val
    have "v = d \<or> (\<exists>c dir. ctx = Some c \<and> v = rewriteImporter P d ds dir (workspacesDir c))"
      by (auto split: option.splits if_splits)
    ultimately show ?thesis using pd rel key by blast
  qed
  have root: "\<exists>c d. ctx = Some c \<and> (t, d) \<in> set imps \<and> ?toNew t = Some ''.'' \<and>
                 (v = d \<or> (\<exists>dir. v = rewriteImporter P d ds dir (workspacesDir c)))"
    if "(''.'', v) \<in> set ?pruned" for v
  proof -
    from src [OF that] obtain p d where
      pd: "(p, d) \<in> set imps" and p: "p \<noteq> ''.''" and
      key: "''.'' = (case ?toNew p of Some q \<Rightarrow> q | None \<Rightarrow> p)" and
      val: "v = d \<or> (\<exists>c dir. ctx = Some c \<and> v = rewriteImporter P d ds dir (workspacesDir c))"
      by blast
    from p key have new: "?toNew p = Some ''.''" by (cases "?toNew p") auto
    from toNewPath_root [OF new] obtain c where c: "ctx = Some c" and pt: "p = t" by auto
    from val c have "v = d \<or> (\<exists>dir. v = rewriteImporter P d ds dir (workspacesDir c))"
      by auto
    with c pd pt new show ?thesis by auto
  qed
  have none: "''.'' \<notin> fst ` set ?pruned" if "ctx = None"
  proof
    assume "''.'' \<in> fst ` set ?pruned"
    then obtain v where "(''.'', v) \<in> set ?pruned" by force
    from root [OF this] that show False by auto
  qed
  have all: "\<forall>(k, v) \<in> set ?pruned. \<exists>(p, d) \<in> set imps.
              p \<noteq> ''.'' \<and> p \<in> ?R \<and>
              k = (case ?toNew p of Some q \<Rightarrow> q | None \<Rightarrow> p) \<and>
              (v = d \<or> (\<exists>c dir. ctx = Some c \<and> v = rewriteImporter P d ds dir (workspacesDir c)))"
  proof
    fix e
    assume e: "e \<in> set ?pruned"
    obtain k v where kv: "e = (k, v)" by (cases e)
    from src [of k v] e kv obtain p d where
      "(p, d) \<in> set imps" and "p \<noteq> ''.'' \<and> p \<in> ?R \<and>
         k = (case ?toNew p of Some q \<Rightarrow> q | None \<Rightarrow> p) \<and>
         (v = d \<or> (\<exists>c dir. ctx = Some c \<and> v = rewriteImporter P d ds dir (workspacesDir c)))"
      by blast
    then show "case e of (k, v) \<Rightarrow> \<exists>(p, d) \<in> set imps.
              p \<noteq> ''.'' \<and> p \<in> ?R \<and>
              k = (case ?toNew p of Some q \<Rightarrow> q | None \<Rightarrow> p) \<and>
              (v = d \<or> (\<exists>c dir. ctx = Some c \<and> v = rewriteImporter P d ds dir (workspacesDir c)))"
      unfolding kv by (simp only: prod.case) (rule bexI [of _ "(p, d)"], simp_all)
  qed
  show ?thesis
  proof (intro exI [of _ ?pruned] conjI allI impI)
    show "importers (pruneLockfile P lockfile t ds registry ctx) = Some ?pruned" by (rule res)
    show "importers (pruneLockfile P
                 (lockfile \<lparr> importers := Some (filter (\<lambda>(p, d). p \<noteq> ''.'') imps) \<rparr>)
                 t ds registry ctx) = Some ?pruned" by (rule res')
    show "\<forall>(k, v) \<in> set ?pruned. \<exists>(p, d) \<in> set imps.
              p \<noteq> ''.'' \<and> p \<in> ?R \<and>
              k = (case ?toNew p of Some q \<Rightarrow> q | None \<Rightarrow> p) \<and>
              (v = d \<or> (\<exists>c dir. ctx = Some c \<and> v = rewriteImporter P d ds dir (workspacesDir c)))"
      by (rule all)
    show "''.'' \<notin> fst ` set ?pruned" if "ctx = None" by (rule none [OF that])
    show "\<exists>c d. ctx = Some c \<and> (t, d) \<in> set imps \<and> ?toNew t = Some ''.'' \<and>
                 (v = d \<or> (\<exists>dir. v = rewriteImporter P d ds dir (workspacesDir c)))"
      if "(''.'', v) \<in> set ?pruned" for v by (rule root [OF that])
  qed
qed

theorem root_importer_skipped_witness:
  "importers example_lockfile \<noteq> None \<and>
   ''.'' \<in> fst ` set (the (importers example_lockfile)) \<and>
   ''packages/a'' \<noteq> ''.'' \<and>
   map fst (the (importers (pruneLockfile (posix ''/'') example_lockfile ''packages/a''
       [''@scope/b'', ''@scope/missing''] example_registry None))) =
     [''packages/a'', ''packages/b'']"
proof -
  have i: "importers example_lockfile = Some (the (importers example_lockfile))"
    by (simp add: example_lockfile_def)
  have t: "''packages/a'' \<noteq> ''.''" by simp
  from root_importer_skipped [OF i t, of "posix ''/''" "[''@scope/b'', ''@scope/missing'']"
      example_registry None]
  show ?thesis by (simp add: prune_eval)
qed

text \<open>
  C2 as the claim words it also covers a supplied relocation context. In the example
  workspace, pruned for \<^verbatim>\<open>packages/a\<close> with a relocation context, the result's importers
  are keyed \<^verbatim>\<open>.\<close> (the target) and \<^verbatim>\<open>workspaces/scope-b\<close>.
\<close>

theorem root_key_under_relocation_counterexample:
  "importers example_lockfile \<noteq> None \<and>
   ''.'' \<in> fst ` set (the (importers example_lockfile)) \<and>
   ''packages/a'' \<noteq> ''.'' \<and>
   map fst (the (importers (pruneLockfile (posix ''/'') example_lockfile ''packages/a''
       [''@scope/b'', ''@scope/missing''] example_registry (Some example_context)))) =
     [''.'', ''workspaces/scope-b'']"
  by (simp add: prune_eval posix_eval)

text \<open>
  C10, as the code has it. With a relocation context both relocation tables have
  exactly the paths of \<^verbatim>\<open>relevantDirs\<close> as keys. When moreover \<^verbatim>\<open>outputDir\<close> is not the empty
  string (and \<^verbatim>\<open>path.join\<close> never returns the empty string, as Node's does not), every
  emitted importer is the rewritten copy of an input importer of a relevant path, stored
  under that path's entry of \<^verbatim>\<open>importerPathToNewPath\<close>, which can be the path itself.
\<close>

theorem relocation_rewrites_every_importer:
  assumes "ctx = Some c"
    and "outputDir c \<noteq> []"
    and "\<forall>a b. path_join P a b \<noteq> []"
    and "importers lockfile = Some imps"
  shows "dom (importerPathToOutputDir P t ds registry ctx) = relevantDirs t ds registry \<and>
         dom (importerPathToNewPath t ds registry ctx) = relevantDirs t ds registry \<and>
         (\<exists>pruned. importers (pruneLockfile P lockfile t ds registry ctx) = Some pruned \<and>
            (\<forall>(k, v) \<in> set pruned. \<exists>(p, d) \<in> set imps.
               p \<in> relevantDirs t ds registry \<and>
               importerPathToNewPath t ds registry ctx p = Some k \<and>
               (\<exists>dir. importerPathToOutputDir P t ds registry ctx p = Some dir \<and>
                  v = rewriteImporter P d ds dir (workspacesDir c))))"
proof -
  let ?R = "relevantDirs t ds registry"
  let ?toOut = "importerPathToOutputDir P t ds registry ctx"
  let ?toNew = "importerPathToNewPath t ds registry ctx"
  let ?pruned = "fold (pruneImporter P t ds ctx ?R ?toOut ?toNew) imps []"
  have dOut: "dom ?toOut = ?R" by (simp add: assms(1) toOutputDir_dom)
  have dNew: "dom ?toNew = ?R" by (simp add: assms(1) toNewPath_dom)
  have res: "importers (pruneLockfile P lockfile t ds registry ctx) = Some ?pruned"
    using assms(4) by (simp add: pruneLockfile_def Let_def)
  have each: "\<exists>(p, d) \<in> set imps. p \<in> ?R \<and> ?toNew p = Some k \<and>
               (\<exists>dir. ?toOut p = Some dir \<and> v = rewriteImporter P d ds dir (workspacesDir c))"
    if "(k, v) \<in> set ?pruned" for k v
  proof -
    from prune_provenance [OF that] obtain p d where
      pd: "(p, d) \<in> set imps" and rel: "p \<in> ?R" and
      key: "k = (case ?toNew p of Some q \<Rightarrow> q | None \<Rightarrow> p)" and
      val: "v = (case ctx of None \<Rightarrow> d
                 | Some c \<Rightarrow> (case ?toOut p of None \<Rightarrow> d
                     | Some dir \<Rightarrow> if dir \<noteq> [] then rewriteImporter P d ds dir (workspacesDir c)
                                  else d))"
      by auto
    from rel dNew obtain q where q: "?toNew p = Some q" by blast
    from rel dOut obtain dir where dir: "?toOut p = Some dir" by blast
    from dir assms(1) have "importerPathToOutputDir P t ds registry (Some c) p = Some dir"
      by simp
    from toOutputDir_value [OF this]
    have "dir = outputDir c \<or> (\<exists>n. dir = path_join P (workspacesDir c) (safeName n))" .
    with assms(2,3) have "dir \<noteq> []" by metis
    with val dir assms(1) have "v = rewriteImporter P d ds dir (workspacesDir c)" by simp
    with pd rel key q dir show ?thesis by auto
  qed
  from dOut dNew res each show ?thesis by blast
qed

theorem relocation_rewrites_every_importer_witness:
  "outputDir example_context \<noteq> [] \<and>
   (\<forall>a b. path_join (posix ''/'') a b \<noteq> []) \<and>
   importers example_lockfile \<noteq> None \<and>
   importers (pruneLockfile (posix ''/'') example_lockfile ''packages/a''
                [''@scope/b''] example_registry (Some example_context)) =
     Some [(''.'',
             \<lparr> dependencies = Some
                 [(''@scope/b'', \<lparr> specifier = ''file:./workspaces/scope-b'',
                                  version = ''link:./workspaces/scope-b'' \<rparr>),
                  (''@scope/missing'',
                     \<lparr> specifier = ''workspace:*'', version = ''link:../missing'' \<rparr>),
                  (''foo'', \<lparr> specifier = ''1.2.3'', version = ''1.2.3'' \<rparr>)],
               devDependencies = None, optionalDependencies = None, importer_extras = [] \<rparr>),
           (''workspaces/scope-b'',
             \<lparr> dependencies = Some
                 [(''lodash'', \<lparr> specifier = ''^4.17.0'', version = ''4.17.21'' \<rparr>)],
               devDependencies = None, optionalDependencies = None, importer_extras = [] \<rparr>)]"
proof -
  have o: "outputDir example_context \<noteq> []" by (simp add: example_context_def)
  have j: "\<forall>a b. path_join (posix ''/'') a b \<noteq> []"
    by (simp add: posix_def posix_join_nonempty)
  have i: "importers example_lockfile = Some (the (importers example_lockfile))"
    by (simp add: example_lockfile_def)
  from relocation_rewrites_every_importer [OF refl o j i, of "''packages/a''" "[''@scope/b'']"
      example_registry]
  show ?thesis
    using o j by (simp add: prune_eval posix_eval)
qed

text \<open>
  C10 as the claim words it has no condition on \<^verbatim>\<open>outputDir\<close>. The test
  \<^verbatim>\<open>rewriteContext && importerOutputDir\<close> is a truthiness test, and the empty string is
  falsy: with \<^verbatim>\<open>outputDir: ""\<close> both tables have an entry for the target, and the target's
  importer is stored under \<^verbatim>\<open>.\<close> by the pass-through branch, its \<^verbatim>\<open>workspace:\<close> entries
  not rewritten.
\<close>

theorem empty_outputDir_passthrough_counterexample:
  "map_of (the (importers (pruneLockfile (posix ''/'') example_lockfile ''packages/a''
                [''@scope/b''] example_registry
                (Some \<lparr> outputDir = [], workspacesDir = ''workspaces'' \<rparr>))))
          ''.'' =
     map_of (the (importers example_lockfile)) ''packages/a'' \<and>
   importerPathToOutputDir (posix ''/'') ''packages/a'' [''@scope/b''] example_registry
     (Some \<lparr> outputDir = [], workspacesDir = ''workspaces'' \<rparr>) ''packages/a'' = Some [] \<and>
   importerPathToNewPath ''packages/a'' [''@scope/b''] example_registry
     (Some \<lparr> outputDir = [], workspacesDir = ''workspaces'' \<rparr>) ''packages/a'' = Some ''.'' \<and>
   dependencies (the (map_of (the (importers example_lockfile)) ''packages/a'')) =
     Some [(''@scope/b'', \<lparr> specifier = ''workspace:*'', version = ''link:../b'' \<rparr>),
           (''@scope/missing'',
              \<lparr> specifier = ''workspace:*'', version = ''link:../missing'' \<rparr>),
           (''foo'', \<lparr> specifier = ''1.2.3'', version = ''1.2.3'' \<rparr>)]"
  by (simp add: prune_eval posix_eval)

subsection \<open>The Lockfile Loader\<close>

text \<open>
  C6, as the code has it. The loader returns \<^verbatim>\<open>null\<close> when the lockfile is absent and
  returns the same \<^verbatim>\<open>null\<close> when the lockfile is there and reading or parsing it throws:
  the \<^verbatim>\<open>catch\<close> block logs and returns \<^verbatim>\<open>null\<close>. The two cases differ only in the line
  written to the debug log.
\<close>

theorem loader_null_for_absent_and_unparsable:
  "(\<not> existsSync env (path_join P root ''pnpm-lock.yaml'') \<longrightarrow>
      readPnpmLockfile P env root =
        ([''No pnpm-lock.yaml found at '' @ path_join P root ''pnpm-lock.yaml''], None)) \<and>
   (existsSync env (path_join P root ''pnpm-lock.yaml'') \<and>
    readFileSync env (path_join P root ''pnpm-lock.yaml'') = Inr content \<and>
    yaml_parse env content = Inl err \<longrightarrow>
      readPnpmLockfile P env root = ([''Failed to parse pnpm-lock.yaml: '' @ err], None)) \<and>
   (existsSync env (path_join P root ''pnpm-lock.yaml'') \<and>
    readFileSync env (path_join P root ''pnpm-lock.yaml'') = Inl err \<longrightarrow>
      readPnpmLockfile P env root = ([''Failed to parse pnpm-lock.yaml: '' @ err], None)) \<and>
   (existsSync env (path_join P root ''pnpm-lock.yaml'') \<and>
    readFileSync env (path_join P root ''pnpm-lock.yaml'') = Inr content \<and>
    yaml_parse env content = Inr lockfile \<longrightarrow>
      readPnpmLockfile P env root = ([], lockfile))"
  by (simp add: readPnpmLockfile_def Let_def)

theorem loader_null_for_absent_and_unparsable_witness:
  "\<not> existsSync absent_env (path_join (posix ''/'') ''/repo'' ''pnpm-lock.yaml'') \<and>
   readPnpmLockfile (posix ''/'') absent_env ''/repo'' =
     ([''No pnpm-lock.yaml found at /repo/pnpm-lock.yaml''], None) \<and>
   existsSync malformed_env (path_join (posix ''/'') ''/repo'' ''pnpm-lock.yaml'') \<and>
   (\<exists>err. yaml_parse malformed_env ''lockfileVersion: ['' = Inl err \<and>
      readPnpmLockfile (posix ''/'') malformed_env ''/repo'' =
        ([''Failed to parse pnpm-lock.yaml: '' @ err], None))"
proof -
  have p: "path_join (posix ''/'') ''/repo'' ''pnpm-lock.yaml'' = ''/repo/pnpm-lock.yaml''"
    by (simp add: posix_eval)
  from loader_null_for_absent_and_unparsable
         [of absent_env "posix ''/''" "''/repo''" "[]" "[]" None]
    loader_null_for_absent_and_unparsable
         [of malformed_env "posix ''/''" "''/repo''" "''lockfileVersion: [''"
            "''YAMLParseError: Flow sequence in block collection must be sufficiently indented and end with a ]''"
            None]
  show ?thesis
    by (simp add: p absent_env_def malformed_env_def)
qed

text \<open>
  C6 as the claim words it asks for a failure signal that a caller can tell from
  absence. The value returned is the same: for a root with no lockfile and for a root
  whose lockfile is not YAML, the loader returns \<^verbatim>\<open>null\<close>.
\<close>

theorem loader_same_result_counterexample:
  "\<not> existsSync absent_env (path_join (posix ''/'') ''/repo'' ''pnpm-lock.yaml'') \<and>
   existsSync malformed_env (path_join (posix ''/'') ''/repo'' ''pnpm-lock.yaml'') \<and>
   snd (readPnpmLockfile (posix ''/'') absent_env ''/repo'') = None \<and>
   snd (readPnpmLockfile (posix ''/'') malformed_env ''/repo'') = None \<and>
   snd (readPnpmLockfile (posix ''/'') absent_env ''/repo'') =
     snd (readPnpmLockfile (posix ''/'') malformed_env ''/repo'')"
  by (simp add: readPnpmLockfile_def absent_env_def malformed_env_def posix_eval)

subsection \<open>The pruner never writes to an object of its caller\<close>

lemma extends_refl: "extends h h"
  by (simp add: extends_def)

lemma extends_length: "extends h0 h \<Longrightarrow> length h0 \<le> length h"
proof -
  assume "extends h0 h"
  then have "length (take (length h0) h) = length h0" by (simp add: extends_def)
  then show ?thesis by simp
qed

lemma extends_append: "extends h0 h \<Longrightarrow> extends h0 (h @ xs)"
  using extends_length [of h0 h] by (simp add: extends_def)

lemma extends_update: "extends h0 h \<Longrightarrow> length h0 \<le> a \<Longrightarrow> extends h0 (h[a := x])"
  by (simp add: extends_def)


lemma stable_local_object: "stable (local_object h0 pruned) (Suc pruned)"
  unfolding stable_def local_object_def
  by (auto simp: extends_append extends_update nth_append)

lemma hoareI:
  "(\<And>h. A h \<Longrightarrow> (case m h of (Inl e, h') \<Rightarrow> E h' | (Inr x, h') \<Rightarrow> B x h')) \<Longrightarrow> hoare A m B E"
  by (simp add: hoare_def)

lemma hoare_seq:
  assumes "hoare A m B E" and "\<And>x. hoare (B x) (f x) C E"
  shows "hoare A (seq m f) C E"
proof (rule hoareI)
  fix h assume A: "A h"
  obtain r h1 where m: "m h = (r, h1)" by (cases "m h")
  show "case seq m f h of (Inl e, h') \<Rightarrow> E h' | (Inr x, h') \<Rightarrow> C x h'"
  proof (cases r)
    case (Inl e)
    with assms(1) A m show ?thesis by (auto simp: hoare_def seq_def)
  next
    case (Inr x)
    with assms(1) A m have "B x h1" by (auto simp: hoare_def)
    with assms(2) [of x] have "case f x h1 of (Inl e, h') \<Rightarrow> E h' | (Inr y, h') \<Rightarrow> C y h'"
      by (simp add: hoare_def)
    with m Inr show ?thesis by (simp add: seq_def)
  qed
qed

lemma hoare_conseq:
  assumes "hoare A m B E"
    and "\<And>h. A' h \<Longrightarrow> A h" and "\<And>x h. B x h \<Longrightarrow> B' x h" and "\<And>h. E h \<Longrightarrow> E' h"
  shows "hoare A' m B' E'"
proof (rule hoareI)
  fix h assume "A' h"
  then have "A h" by (rule assms(2))
  with assms(1) have "case m h of (Inl e, h') \<Rightarrow> E h' | (Inr x, h') \<Rightarrow> B x h'"
    by (simp add: hoare_def)
  then show "case m h of (Inl e, h') \<Rightarrow> E' h' | (Inr x, h') \<Rightarrow> B' x h'"
    using assms(3,4) by (cases "m h") (auto split: sum.splits)
qed

lemma keeps_seq:
  assumes "keeps I m Q" and "\<And>x. Q x \<Longrightarrow> keeps I (f x) Q'"
  shows "keeps I (seq m f) Q'"
  unfolding keeps_def
proof (rule hoare_seq [where B = "\<lambda>x h. I h \<and> Q x"])
  show "hoare I m (\<lambda>x h. I h \<and> Q x) I"
    using assms(1) by (simp add: keeps_def)
  fix x
  show "hoare (\<lambda>h. I h \<and> Q x) (f x) (\<lambda>x h. I h \<and> Q' x) I"
  proof (cases "Q x")
    case True
    from assms(2) [OF True] show ?thesis
      unfolding keeps_def by (rule hoare_conseq) simp_all
  next
    case False
    then show ?thesis by (simp add: hoare_def)
  qed
qed

lemma keeps_pure: "(\<And>h. snd (m h) = h) \<Longrightarrow> keeps I m (\<lambda>_. True)"
proof -
  assume p: "\<And>h. snd (m h) = h"
  show ?thesis
    unfolding keeps_def
  proof (rule hoareI)
    fix h assume "I h"
    with p [of h] show "case m h of (Inl e, h') \<Rightarrow> I h' | (Inr x, h') \<Rightarrow> I h' \<and> True"
      by (cases "m h") (auto split: sum.splits)
  qed
qed

lemma keeps_ret: "Q x \<Longrightarrow> keeps I (ret x) Q"
  by (simp add: keeps_def hoare_def ret_def)

lemma keeps_throw: "keeps I (throw e) Q"
  by (simp add: keeps_def hoare_def throw_def)

lemma keeps_forEach:
  assumes "\<And>x. x \<in> set xs \<Longrightarrow> keeps I (body x) (\<lambda>_. True)"
  shows "keeps I (forEach xs body) (\<lambda>_. True)"
  using assms
proof (induction xs)
  case Nil
  show ?case by (simp add: keeps_ret)
next
  case (Cons x xs)
  have "keeps I (seq (body x) (\<lambda>_. forEach xs body)) (\<lambda>_. True)"
    by (rule keeps_seq [where Q = "\<lambda>_. True"]) (simp_all add: Cons)
  then show ?case by simp
qed

lemma keeps_if:
  "(c \<Longrightarrow> keeps I a Q) \<Longrightarrow> (\<not> c \<Longrightarrow> keeps I b Q) \<Longrightarrow> keeps I (if c then a else b) Q"
  by simp

lemma keeps_case_prod:
  "(\<And>a b. keeps I (f a b) Q) \<Longrightarrow> keeps I (case p of (a, b) \<Rightarrow> f a b) Q"
  by (cases p) simp

text \<open>operations that only read\<close>

lemma pure_ret: "snd (ret x h) = h" by (simp add: ret_def)
lemma pure_throw: "snd (throw e h) = h" by (simp add: throw_def)
lemma pure_getProp: "snd (getProp v k h) = h"
  by (simp add: getProp_def split: jsval.splits heap_object.splits)
lemma pure_objectEntries: "snd (objectEntries v h) = h"
  by (simp add: objectEntries_def split: jsval.splits heap_object.splits)
lemma pure_setHas: "snd (setHas v k h) = h"
  by (simp add: setHas_def split: jsval.splits heap_object.splits)
lemma pure_setValues: "snd (setValues v h) = h"
  by (simp add: setValues_def split: jsval.splits heap_object.splits)
lemma pure_mapGet: "snd (mapGet v k h) = h"
  by (simp add: mapGet_def split: jsval.splits heap_object.splits)
lemma pure_pathJoin: "snd (pathJoin P a b h) = h"
  by (simp add: pathJoin_def split: jsval.splits)
lemma pure_getRelativePath_h: "snd (getRelativePath_h P a b h) = h"
  by (simp add: getRelativePath_h_def split: jsval.splits)
lemma pure_seq: "(\<And>h. snd (m h) = h) \<Longrightarrow> (\<And>x h. snd (f x h) = h) \<Longrightarrow> snd (seq m f h) = h"
proof -
  assume m: "\<And>h. snd (m h) = h" and f: "\<And>x h. snd (f x h) = h"
  obtain r h1 where r: "m h = (r, h1)" by (cases "m h")
  with m [of h] have "h1 = h" by simp
  with r f show ?thesis by (cases r) (simp_all add: seq_def)
qed
lemma pure_specifierStartsWith: "snd (specifierStartsWith v p h) = h"
  unfolding specifierStartsWith_def
  by (rule pure_seq) (simp_all add: pure_getProp pure_ret pure_throw split: jsval.splits)

text \<open>sequencing after each operation\<close>

lemma seq_pure:
  "(\<And>h. snd (m h) = h) \<Longrightarrow> (\<And>x. keeps I (f x) Q) \<Longrightarrow> keeps I (seq m f) Q"
  by (rule keeps_seq [OF keeps_pure])

lemma seq_keeps:
  "keeps I m (\<lambda>_. True) \<Longrightarrow> (\<And>x. keeps I (f x) Q) \<Longrightarrow> keeps I (seq m f) Q"
  by (rule keeps_seq)

lemma seq_if:
  "(c \<Longrightarrow> keeps I (seq a f) Q) \<Longrightarrow> (\<not> c \<Longrightarrow> keeps I (seq b f) Q) \<Longrightarrow>
   keeps I (seq (if c then a else b) f) Q"
  by simp

lemma seq_assoc: "seq (seq a b) f = seq a (\<lambda>x. seq (b x) f)"
  by (auto simp: seq_def fun_eq_iff split: prod.splits sum.splits)

lemma seq_seq:
  "keeps I (seq a (\<lambda>x. seq (b x) f)) Q \<Longrightarrow> keeps I (seq (seq a b) f) Q"
  by (simp add: seq_assoc)

lemma seq_ret: "keeps I (f x) Q \<Longrightarrow> keeps I (seq (ret x) f) Q"
  by (simp add: seq_def ret_def keeps_def hoare_def)

lemma seq_throw: "keeps I (seq (throw e) f) Q"
  by (simp add: seq_def throw_def keeps_def hoare_def)

lemma seq_case_jsval:
  "keeps I (seq u f) Q \<Longrightarrow> keeps I (seq n f) Q \<Longrightarrow> (\<And>x. keeps I (seq (b x) f) Q) \<Longrightarrow>
   (\<And>x. keeps I (seq (nu x) f) Q) \<Longrightarrow> (\<And>x. keeps I (seq (s x) f) Q) \<Longrightarrow>
   (\<And>x. keeps I (seq (r x) f) Q) \<Longrightarrow>
   keeps I (seq (case v of JUndefined \<Rightarrow> u | JNull \<Rightarrow> n | JBool x \<Rightarrow> b x | JNum x \<Rightarrow> nu x
                  | JStr x \<Rightarrow> s x | JRef x \<Rightarrow> r x) f) Q"
  by (cases v) simp_all

lemmas seq_getProp = seq_pure [of "getProp v k" for v k, OF pure_getProp]
lemmas seq_objectEntries = seq_pure [of "objectEntries v" for v, OF pure_objectEntries]
lemmas seq_setHas = seq_pure [of "setHas v k" for v k, OF pure_setHas]
lemmas seq_setValues = seq_pure [of "setValues v" for v, OF pure_setValues]
lemmas seq_mapGet = seq_pure [of "mapGet v k" for v k, OF pure_mapGet]
lemmas seq_pathJoin = seq_pure [of "pathJoin P a b" for P a b, OF pure_pathJoin]
lemmas seq_getRelativePath_h =
  seq_pure [of "getRelativePath_h P a b" for P a b, OF pure_getRelativePath_h]
lemmas seq_specifierStartsWith =
  seq_pure [of "specifierStartsWith v p" for v p, OF pure_specifierStartsWith]

lemmas flow_rules =
  keeps_if keeps_case_prod keeps_ret keeps_throw keeps_forEach
  seq_if seq_seq seq_ret seq_throw seq_case_jsval

lemmas read_rules =
  seq_objectEntries seq_setHas seq_setValues seq_mapGet seq_pathJoin
  seq_getRelativePath_h seq_specifierStartsWith

text \<open>operations that create an object or write to one\<close>

lemma keeps_newObject: "stable I n \<Longrightarrow> keeps I (newObject ps) (\<lambda>a. n \<le> a)"
  by (auto simp: stable_def keeps_def hoare_def newObject_def)

lemma keeps_newSet: "stable I n \<Longrightarrow> keeps I (newSet xs) (\<lambda>a. n \<le> a)"
  by (auto simp: stable_def keeps_def hoare_def newSet_def)

lemma keeps_newMap: "stable I n \<Longrightarrow> keeps I newMap (\<lambda>a. n \<le> a)"
  by (auto simp: stable_def keeps_def hoare_def newMap_def)

lemma keeps_spread: "stable I n \<Longrightarrow> keeps I (spread v) (\<lambda>a. n \<le> a)"
  by (auto simp: stable_def keeps_def hoare_def spread_def newObject_def
      split: jsval.splits heap_object.splits)

lemma keeps_setProp:
  "stable I n \<Longrightarrow> (\<And>a. target = JRef a \<Longrightarrow> n \<le> a) \<Longrightarrow> keeps I (setProp target k v) (\<lambda>_. True)"
  by (auto simp: stable_def keeps_def hoare_def setProp_def
      split: jsval.splits heap_object.splits)

lemma keeps_setAdd: "stable I n \<Longrightarrow> n \<le> a \<Longrightarrow> keeps I (setAdd a v) (\<lambda>_. True)"
  by (auto simp: stable_def keeps_def hoare_def setAdd_def
      split: jsval.splits heap_object.splits)

lemma keeps_mapSet: "stable I n \<Longrightarrow> n \<le> a \<Longrightarrow> keeps I (mapSet a k v) (\<lambda>_. True)"
  by (auto simp: stable_def keeps_def hoare_def mapSet_def
      split: jsval.splits heap_object.splits)

lemma seq_newObject:
  "stable I n \<Longrightarrow> (\<And>a. n \<le> a \<Longrightarrow> keeps I (f a) Q) \<Longrightarrow> keeps I (seq (newObject ps) f) Q"
  by (rule keeps_seq [OF keeps_newObject])

lemma seq_newSet:
  "stable I n \<Longrightarrow> (\<And>a. n \<le> a \<Longrightarrow> keeps I (f a) Q) \<Longrightarrow> keeps I (seq (newSet xs) f) Q"
  by (rule keeps_seq [OF keeps_newSet])

lemma seq_newMap:
  "stable I n \<Longrightarrow> (\<And>a. n \<le> a \<Longrightarrow> keeps I (f a) Q) \<Longrightarrow> keeps I (seq newMap f) Q"
  by (rule keeps_seq [OF keeps_newMap])

lemma seq_spread:
  "stable I n \<Longrightarrow> (\<And>a. n \<le> a \<Longrightarrow> keeps I (f a) Q) \<Longrightarrow> keeps I (seq (spread v) f) Q"
  by (rule keeps_seq [OF keeps_spread])

lemma seq_setAdd:
  "stable I n \<Longrightarrow> n \<le> a \<Longrightarrow> (\<And>u. keeps I (f u) Q) \<Longrightarrow> keeps I (seq (setAdd a v) f) Q"
  by (rule seq_keeps [OF keeps_setAdd])

lemma seq_mapSet:
  "stable I n \<Longrightarrow> n \<le> a \<Longrightarrow> (\<And>u. keeps I (f u) Q) \<Longrightarrow> keeps I (seq (mapSet a k v) f) Q"
  by (rule seq_keeps [OF keeps_mapSet])

lemma seq_forEach:
  "(\<And>x. x \<in> set xs \<Longrightarrow> keeps I (body x) (\<lambda>_. True)) \<Longrightarrow> (\<And>u. keeps I (f u) Q) \<Longrightarrow>
   keeps I (seq (forEach xs body) f) Q"
  by (rule seq_keeps [OF keeps_forEach])

lemmas alloc_rules =
  seq_newObject seq_newSet seq_newMap seq_spread keeps_setAdd keeps_mapSet seq_setAdd seq_mapSet

lemma seq_setProp:
  "stable I n \<Longrightarrow> (\<And>a. target = JRef a \<Longrightarrow> n \<le> a) \<Longrightarrow> (\<And>u. keeps I (f u) Q) \<Longrightarrow>
   keeps I (seq (setProp target k v) f) Q"
  by (rule seq_keeps [OF keeps_setProp])

lemmas write_rules = keeps_setProp seq_setProp

lemma keeps_rewriteImporterDependencies_h:
  assumes st: "stable I n"
  shows "keeps I (rewriteImporterDependencies_h P deps internalDeps importerOutputDir ws)
           (\<lambda>_. True)"
  unfolding rewriteImporterDependencies_h_def rewriteEntry_h_def
  by (intro flow_rules seq_forEach read_rules seq_getProp alloc_rules [OF st] write_rules [OF st])
     simp_all

lemma keeps_relevantDirs_h:
  assumes st: "stable I n"
  shows "keeps I (relevantDirs_h t internalDeps registry) (\<lambda>a. n \<le> a)"
  unfolding relevantDirs_h_def
  by (intro flow_rules seq_forEach read_rules seq_getProp alloc_rules [OF st] write_rules [OF st])
     simp_all

lemma keeps_importerPathToOutputDir_h:
  assumes st: "stable I n"
  shows "keeps I (importerPathToOutputDir_h P t internalDeps registry ctx) (\<lambda>a. n \<le> a)"
  unfolding importerPathToOutputDir_h_def
  by (intro flow_rules seq_forEach read_rules seq_getProp alloc_rules [OF st] write_rules [OF st])
     simp_all

lemma keeps_importerPathToNewPath_h:
  assumes st: "stable I n"
  shows "keeps I (importerPathToNewPath_h t internalDeps registry ctx) (\<lambda>a. n \<le> a)"
  unfolding importerPathToNewPath_h_def
  by (intro flow_rules seq_forEach read_rules seq_getProp alloc_rules [OF st] write_rules [OF st])
     simp_all

lemma keeps_getProp_local:
  "keeps (local_object h0 pruned) (getProp v k)
     (\<lambda>x. v = JRef pruned \<longrightarrow> k = ''importers'' \<longrightarrow> (\<forall>a. x = JRef a \<longrightarrow> pruned < a))"
  unfolding keeps_def
proof (rule hoareI)
  fix h assume I: "local_object h0 pruned h"
  then obtain ps where ps: "h ! pruned = PlainObject ps" and len: "pruned < length h"
    and imp: "\<forall>v. map_of ps ''importers'' = Some v \<longrightarrow> (\<exists>a. v = JRef a \<and> pruned < a)"
    by (auto simp: local_object_def)
  obtain r where r: "getProp v k h = (r, h)"
    using pure_getProp [of v k h] by (cases "getProp v k h") simp
  show "case getProp v k h of
          (Inl e, h') \<Rightarrow> local_object h0 pruned h'
        | (Inr x, h') \<Rightarrow> local_object h0 pruned h' \<and>
            (v = JRef pruned \<longrightarrow> k = ''importers'' \<longrightarrow> (\<forall>a. x = JRef a \<longrightarrow> pruned < a))"
  proof (cases r)
    case (Inl e)
    with r I show ?thesis by simp
  next
    case (Inr x)
    have "\<forall>a. x = JRef a \<longrightarrow> pruned < a" if "v = JRef pruned" and "k = ''importers''"
    proof -
      from that r Inr ps len
      have "x = (case map_of ps ''importers'' of Some y \<Rightarrow> y | None \<Rightarrow> JUndefined)"
        by (simp add: getProp_def)
      with imp show ?thesis by (cases "map_of ps ''importers''") auto
    qed
    with r Inr I show ?thesis by simp
  qed
qed

lemma seq_getProp_local:
  "(\<And>x. (v = JRef pruned \<longrightarrow> k = ''importers'' \<longrightarrow> (\<forall>a. x = JRef a \<longrightarrow> pruned < a)) \<Longrightarrow>
        keeps (local_object h0 pruned) (f x) Q) \<Longrightarrow>
   keeps (local_object h0 pruned) (seq (getProp v k) f) Q"
  by (rule keeps_seq [OF keeps_getProp_local])

lemma keeps_setProp_local:
  assumes "\<And>a. target = JRef a \<Longrightarrow>
             pruned < a \<or> (a = pruned \<and> (k \<noteq> ''importers'' \<or> (\<exists>b. v = JRef b \<and> pruned < b)))"
  shows "keeps (local_object h0 pruned) (setProp target k v) (\<lambda>_. True)"
proof (cases "\<exists>a. target = JRef a \<and> a = pruned")
  case False
  with assms have "\<And>a. target = JRef a \<Longrightarrow> Suc pruned \<le> a" by fastforce
  with stable_local_object show ?thesis by (rule keeps_setProp)
next
  case True
  then have t: "target = JRef pruned" by simp
  from assms [OF t] have kv: "k \<noteq> ''importers'' \<or> (\<exists>b. v = JRef b \<and> pruned < b)" by simp
  show ?thesis
    unfolding keeps_def
  proof (rule hoareI)
    fix h assume I: "local_object h0 pruned h"
    then obtain ps where ps: "h ! pruned = PlainObject ps" and len: "pruned < length h"
      and imp: "\<forall>v. map_of ps ''importers'' = Some v \<longrightarrow> (\<exists>a. v = JRef a \<and> pruned < a)"
      and ext: "extends h0 h" and p: "pruned = length h0"
      by (auto simp: local_object_def)
    have run: "setProp target k v h = (Inr (), h[pruned := PlainObject (assign k v ps)])"
      using t ps len by (simp add: setProp_def)
    have "local_object h0 pruned (h[pruned := PlainObject (assign k v ps)])"
      unfolding local_object_def
      using ext p len imp kv by (auto simp: extends_update map_of_assign)
    with run show "case setProp target k v h of
          (Inl e, h') \<Rightarrow> local_object h0 pruned h'
        | (Inr x, h') \<Rightarrow> local_object h0 pruned h' \<and> True"
      by simp
  qed
qed

lemma seq_setProp_local:
  "(\<And>a. target = JRef a \<Longrightarrow>
       pruned < a \<or> (a = pruned \<and> (k \<noteq> ''importers'' \<or> (\<exists>b. v = JRef b \<and> pruned < b)))) \<Longrightarrow>
   (\<And>u. keeps (local_object h0 pruned) (f u) Q) \<Longrightarrow>
   keeps (local_object h0 pruned) (seq (setProp target k v) f) Q"
  by (rule seq_keeps [OF keeps_setProp_local])

lemma seq_rewriteImporterDependencies_h:
  "stable I n \<Longrightarrow> (\<And>x. keeps I (f x) Q) \<Longrightarrow>
   keeps I (seq (rewriteImporterDependencies_h P deps internalDeps importerOutputDir ws) f) Q"
  by (rule seq_keeps [OF keeps_rewriteImporterDependencies_h])

lemma seq_relevantDirs_h:
  "stable I n \<Longrightarrow> (\<And>a. n \<le> a \<Longrightarrow> keeps I (f a) Q) \<Longrightarrow>
   keeps I (seq (relevantDirs_h t internalDeps registry) f) Q"
  by (rule keeps_seq [OF keeps_relevantDirs_h])

lemma seq_importerPathToOutputDir_h:
  "stable I n \<Longrightarrow> (\<And>a. n \<le> a \<Longrightarrow> keeps I (f a) Q) \<Longrightarrow>
   keeps I (seq (importerPathToOutputDir_h P t internalDeps registry ctx) f) Q"
  by (rule keeps_seq [OF keeps_importerPathToOutputDir_h])

lemma seq_importerPathToNewPath_h:
  "stable I n \<Longrightarrow> (\<And>a. n \<le> a \<Longrightarrow> keeps I (f a) Q) \<Longrightarrow>
   keeps I (seq (importerPathToNewPath_h t internalDeps registry ctx) f) Q"
  by (rule keeps_seq [OF keeps_importerPathToNewPath_h])

lemmas call_rules =
  seq_rewriteImporterDependencies_h seq_relevantDirs_h seq_importerPathToOutputDir_h
  seq_importerPathToNewPath_h

lemmas local_rules = keeps_setProp_local seq_setProp_local seq_getProp_local

lemma keeps_pruneImporter_h:
  "keeps (local_object h0 pruned)
     (pruneImporter_h P pruned t internalDeps ctx dirs toOutputDir toNewPath entry) (\<lambda>_. True)"
  unfolding pruneImporter_h_def rewriteImporter_h_def rewriteField_h_def
  by (intro flow_rules read_rules local_rules alloc_rules [OF stable_local_object]
        call_rules [OF stable_local_object])
     auto

lemma keeps_pruneLockfile_h_rest:
  "keeps (local_object h pruned)
     (seq (getProp lockfile ''importers'') (\<lambda>imps.
     if \<not> truthy imps then seq (spread lockfile) (\<lambda>copy. ret (JRef copy))
     else
       seq (relevantDirs_h targetRelativeDir internalDeps registry) (\<lambda>dirs.
       seq (importerPathToOutputDir_h P targetRelativeDir internalDeps registry rewriteContext)
         (\<lambda>toOutputDir.
       seq (importerPathToNewPath_h targetRelativeDir internalDeps registry rewriteContext)
         (\<lambda>toNewPath.
       seq (newObject []) (\<lambda>fresh.
       seq (setProp (JRef pruned) ''importers'' (JRef fresh)) (\<lambda>_.
       seq (getProp lockfile ''importers'') (\<lambda>imps.
       seq (objectEntries imps) (\<lambda>entries.
       seq (forEach entries
              (pruneImporter_h P pruned targetRelativeDir internalDeps rewriteContext dirs
                 toOutputDir toNewPath)) (\<lambda>_.
       seq (getProp lockfile ''packages'') (\<lambda>pk.
       seq (if truthy pk then
              seq (getProp lockfile ''packages'') (\<lambda>pk. setProp (JRef pruned) ''packages'' pk)
            else ret ()) (\<lambda>_.
       seq (objectEntries lockfile) (\<lambda>top.
       seq (forEach top (\<lambda>(key, val).
              if key \<in> set reservedKeys then ret () else setProp (JRef pruned) key val)) (\<lambda>_.
       ret (JRef pruned)))))))))))))))
     (\<lambda>v. \<exists>a. v = JRef a \<and> pruned \<le> a)"
  by (intro flow_rules read_rules local_rules seq_forEach keeps_pruneImporter_h
        alloc_rules [OF stable_local_object] call_rules [OF stable_local_object])
     (auto simp: reservedKeys_def)

lemma hoare_pruneLockfile_h:
  "hoare (\<lambda>h'. h' = h)
     (pruneLockfile_h P lockfile targetRelativeDir internalDeps registry rewriteContext)
     (\<lambda>v h'. extends h h' \<and> (\<exists>a. v = JRef a \<and> length h \<le> a)) (extends h)"
  unfolding pruneLockfile_h_def
proof (rule hoare_seq [where B = "\<lambda>_ h'. h' = h"])
  show "hoare (\<lambda>h'. h' = h) (getProp lockfile ''lockfileVersion'') (\<lambda>_ h'. h' = h) (extends h)"
    using pure_getProp [of lockfile "''lockfileVersion''" h]
    by (cases "getProp lockfile ''lockfileVersion'' h")
       (auto simp: hoare_def extends_refl split: sum.splits)
next
  fix ver
  show "hoare (\<lambda>h'. h' = h)
     (seq (newObject [(''lockfileVersion'', ver)]) (\<lambda>pruned.
     seq (getProp lockfile ''importers'') (\<lambda>imps.
     if \<not> truthy imps then seq (spread lockfile) (\<lambda>copy. ret (JRef copy))
     else
       seq (relevantDirs_h targetRelativeDir internalDeps registry) (\<lambda>dirs.
       seq (importerPathToOutputDir_h P targetRelativeDir internalDeps registry rewriteContext)
         (\<lambda>toOutputDir.
       seq (importerPathToNewPath_h targetRelativeDir internalDeps registry rewriteContext)
         (\<lambda>toNewPath.
       seq (newObject []) (\<lambda>fresh.
       seq (setProp (JRef pruned) ''importers'' (JRef fresh)) (\<lambda>_.
       seq (getProp lockfile ''importers'') (\<lambda>imps.
       seq (objectEntries imps) (\<lambda>entries.
       seq (forEach entries
              (pruneImporter_h P pruned targetRelativeDir internalDeps rewriteContext dirs
                 toOutputDir toNewPath)) (\<lambda>_.
       seq (getProp lockfile ''packages'') (\<lambda>pk.
       seq (if truthy pk then
              seq (getProp lockfile ''packages'') (\<lambda>pk. setProp (JRef pruned) ''packages'' pk)
            else ret ()) (\<lambda>_.
       seq (objectEntries lockfile) (\<lambda>top.
       seq (forEach top (\<lambda>(key, val).
              if key \<in> set reservedKeys then ret () else setProp (JRef pruned) key val)) (\<lambda>_.
       ret (JRef pruned))))))))))))))))
     (\<lambda>v h'. extends h h' \<and> (\<exists>a. v = JRef a \<and> length h \<le> a)) (extends h)"
  proof (rule hoare_seq [where B = "\<lambda>pruned h'. local_object h pruned h'"])
    show "hoare (\<lambda>h'. h' = h) (newObject [(''lockfileVersion'', ver)])
            (\<lambda>pruned h'. local_object h pruned h') (extends h)"
      by (simp add: hoare_def newObject_def local_object_def extends_def)
  next
    fix pruned
    show "hoare (local_object h pruned)
     (seq (getProp lockfile ''importers'') (\<lambda>imps.
     if \<not> truthy imps then seq (spread lockfile) (\<lambda>copy. ret (JRef copy))
     else
       seq (relevantDirs_h targetRelativeDir internalDeps registry) (\<lambda>dirs.
       seq (importerPathToOutputDir_h P targetRelativeDir internalDeps registry rewriteContext)
         (\<lambda>toOutputDir.
       seq (importerPathToNewPath_h targetRelativeDir internalDeps registry rewriteContext)
         (\<lambda>toNewPath.
       seq (newObject []) (\<lambda>fresh.
       seq (setProp (JRef pruned) ''importers'' (JRef fresh)) (\<lambda>_.
       seq (getProp lockfile ''importers'') (\<lambda>imps.
       seq (objectEntries imps) (\<lambda>entries.
       seq (forEach entries
              (pruneImporter_h P pruned targetRelativeDir internalDeps rewriteContext dirs
                 toOutputDir toNewPath)) (\<lambda>_.
       seq (getProp lockfile ''packages'') (\<lambda>pk.
       seq (if truthy pk then
              seq (getProp lockfile ''packages'') (\<lambda>pk. setProp (JRef pruned) ''packages'' pk)
            else ret ()) (\<lambda>_.
       seq (objectEntries lockfile) (\<lambda>top.
       seq (forEach top (\<lambda>(key, val).
              if key \<in> set reservedKeys then ret () else setProp (JRef pruned) key val)) (\<lambda>_.
       ret (JRef pruned)))))))))))))))
     (\<lambda>v h'. extends h h' \<and> (\<exists>a. v = JRef a \<and> length h \<le> a)) (extends h)"
      by (rule hoare_conseq [OF keeps_pruneLockfile_h_rest [unfolded keeps_def]])
         (auto simp: local_object_def)
  qed
qed

lemmas heap_eval =
  pruneLockfile_h_def pruneImporter_h_def rewriteImporter_h_def rewriteField_h_def
  importerPathToNewPath_h_def
  importerPathToOutputDir_h_def relevantDirs_h_def rewriteImporterDependencies_h_def
  rewriteEntry_h_def specifierStartsWith_def getRelativePath_h_def pathJoin_def mapGet_def mapSet_def newMap_def
  setValues_def setHas_def setAdd_def newSet_def setProp_def spread_def newObject_def
  objectEntries_def getProp_def seq_def ret_def throw_def reservedKeys_def assign_eval

lemma pruneLockfile_h_example:
  "pruneLockfile_h (posix ''/'') (JRef 18) ''packages/a'' (JRef 0) (JRef 2) (JRef 3) example_heap =
     (Inr (JRef 19),
      example_heap @
      [PlainObject [(''lockfileVersion'', JStr ''9.0''), (''importers'', JRef 23),
                    (''packages'', JRef 17), (''settings'', JStr ''autoInstallPeers'')],
       SetObject [''packages/a'', ''packages/b''],
       MapObject [(''packages/a'', JStr ''/out''),
                  (''packages/b'', JStr ''/out/workspaces/scope-b'')],
       MapObject [(''packages/a'', JStr ''.''), (''packages/b'', JStr ''workspaces/scope-b'')],
       PlainObject [(''.'', JRef 24), (''workspaces/scope-b'', JRef 28)],
       PlainObject [(''dependencies'', JRef 25), (''devDependencies'', JUndefined),
                    (''optionalDependencies'', JUndefined)],
       PlainObject [(''@scope/b'', JRef 26), (''@scope/missing'', JRef 27), (''foo'', JRef 8)],
       PlainObject [(''specifier'', JStr ''file:./workspaces/scope-b''),
                    (''version'', JStr ''link:./workspaces/scope-b'')],
       PlainObject [(''specifier'', JStr ''file:./workspaces/scope-missing''),
                    (''version'', JStr ''link:./workspaces/scope-missing'')],
       PlainObject [(''dependencies'', JRef 29), (''devDependencies'', JUndefined),
                    (''optionalDependencies'', JUndefined)],
       PlainObject [(''lodash'', JRef 11)]])"
  by (simp add: heap_eval example_heap_def posix_eval)

text \<open>
  C5. Let \<open>h\<close> be the store when the pruner is called: it holds the lockfile with its
  nested importers and dependency mappings, the registry, the set of internal dependency
  names and every other object of the caller. Whatever the arguments are, and whether the
  call returns or throws, every object of \<open>h\<close> is in the final store at its address with
  the content it had: the call only creates objects and writes to objects it created. When
  the call returns, its result is one of the objects it created.
\<close>

theorem pruneLockfile_never_mutates:
  "take (length h)
     (snd (pruneLockfile_h P lockfile targetRelativeDir internalDeps registry rewriteContext h))
   = h \<and>
   (case fst (pruneLockfile_h P lockfile targetRelativeDir internalDeps registry rewriteContext h)
    of Inl e \<Rightarrow> True | Inr v \<Rightarrow> \<exists>a. v = JRef a \<and> length h \<le> a)"
  using hoare_pruneLockfile_h [of h P lockfile targetRelativeDir internalDeps registry rewriteContext]
  by (cases "pruneLockfile_h P lockfile targetRelativeDir internalDeps registry rewriteContext h")
     (auto simp: hoare_def extends_def split: sum.splits)

theorem pruneLockfile_never_mutates_witness:
  "fst (pruneLockfile_h (posix ''/'') (JRef 18) ''packages/a'' (JRef 0) (JRef 2) (JRef 3)
          example_heap) = Inr (JRef 19) \<and>
   length example_heap = 19 \<and>
   length (snd (pruneLockfile_h (posix ''/'') (JRef 18) ''packages/a'' (JRef 0) (JRef 2) (JRef 3)
                  example_heap)) = 30 \<and>
   take (length example_heap)
     (snd (pruneLockfile_h (posix ''/'') (JRef 18) ''packages/a'' (JRef 0) (JRef 2) (JRef 3)
             example_heap)) = example_heap"
proof -
  have n: "length example_heap = 19" by (simp add: example_heap_def)
  from pruneLockfile_never_mutates
         [of example_heap "posix ''/''" "JRef 18" "''packages/a''" "JRef 0" "JRef 2" "JRef 3"]
  show ?thesis
    by (simp add: pruneLockfile_h_example n)
qed

subsection \<open>The store model and the functional model agree\<close>



































































subsection \<open>The pruner on well-formed arguments\<close>










end
